theory Spec2Isabelle
  imports Main
begin

section \<open>Data model\<close>

text \<open>
  The script \<^verbatim>\<open>Xray/detection_chunk.py\<close> reads blocks and chunks that an external
  library decodes. A block exposes the integers \<^verbatim>\<open>id\<close>, \<^verbatim>\<open>x\<close>, \<^verbatim>\<open>y\<close>, \<^verbatim>\<open>z\<close>; a chunk
  exposes the integers \<^verbatim>\<open>x\<close> and \<^verbatim>\<open>z\<close>. Python integers are unbounded, hence \<open>int\<close>.
  The field names carry a prefix because \<open>id\<close> is a constant of HOL.
\<close>

record block =
  block_id :: int
  block_x :: int
  block_y :: int
  block_z :: int

text \<open>
  What else the library keeps in a chunk object is opaque to the script; it is the
  payload \<open>chunk_data\<close>, of any type.
\<close>

record 'd chunk =
  chunk_x :: int
  chunk_z :: int
  chunk_data :: 'd

text \<open>
  A Python \<^verbatim>\<open>dict\<close> keeps its keys in the order of their first insertion, and the order
  shows when the dict is iterated or printed. It is an association list with distinct
  keys: \<^verbatim>\<open>d[k] = v\<close> replaces the value in place when the key is there and appends
  the pair otherwise; \<^verbatim>\<open>d.get(k)\<close> and \<^verbatim>\<open>k in d\<close> read it through \<open>map_of\<close>.
\<close>

type_synonym ('k, 'v) pydict = "('k \<times> 'v) list"

fun dict_set :: "'k \<Rightarrow> 'v \<Rightarrow> ('k, 'v) pydict \<Rightarrow> ('k, 'v) pydict" where
  "dict_set k v [] = [(k, v)]"
| "dict_set k v ((k', v') # d) =
     (if k' = k then (k', v) # d else (k', v') # dict_set k v d)"

definition dict_get_default :: "('k, 'v) pydict \<Rightarrow> 'k \<Rightarrow> 'v \<Rightarrow> 'v" where
  "dict_get_default d k dflt = (case map_of d k of None \<Rightarrow> dflt | Some v \<Rightarrow> v)"

section \<open>Python's decimal form of an integer\<close>

text \<open>
  \<^verbatim>\<open>str(n)\<close> and the \<^verbatim>\<open>{n}\<close> of an f-string write an integer in base ten, most
  significant digit first, without leading zeros, with a leading minus sign when the
  integer is negative.
\<close>

definition digit_char :: "nat \<Rightarrow> char" where
  "digit_char d = ''0123456789'' ! d"

fun digits :: "nat \<Rightarrow> string" where
  "digits n = (if n < 10 then [digit_char n] else digits (n div 10) @ [digit_char (n mod 10)])"

declare digits.simps [simp del]

definition str_int :: "int \<Rightarrow> string" where
  "str_int i = (if i < 0 then CHR ''-'' # digits (nat (- i)) else digits (nat i))"

section \<open>The static table of block names\<close>

text \<open>
  \<^verbatim>\<open>BLOCK_ID_NAMES\<close>, in the order of the source. The value of the air entry is Python's
  \<^verbatim>\<open>None\<close>, so the values are optional strings.
\<close>

definition BLOCK_ID_NAMES :: "(int, string option) pydict" where
  "BLOCK_ID_NAMES =
    [(3658, Some ''server''),
     (54, Some ''chest''),
     (146, Some ''chest''),
     (3886, Some ''rf''),
     (3664, Some ''electric_meter''),
     (158, Some ''dropper''),
     (3574, Some ''switch''),
     (3575, Some ''repair_machine''),
     (3576, Some ''ecotron''),
     (3663, Some ''electric_collector''),
     (3379, Some ''sealable''),
     (2845, Some ''heavy_wire''),
     (49, Some ''obsidian''),
     (3657, Some ''petroleum''),
     (3383, Some ''solar_panel''),
     (212, Some ''dark_ore''),
     (52, Some ''spawner''),
     (3572, Some ''incubator''),
     (7, Some ''bedrock''),
     (1, Some ''stone''),
     (0, None)]"

text \<open>
  \<^verbatim>\<open>BLOCK_ID_NAMES.get(i)\<close> gives \<^verbatim>\<open>None\<close> both for an absent key and for the air
  entry.
\<close>

definition names_get :: "int \<Rightarrow> string option" where
  "names_get i = (case map_of BLOCK_ID_NAMES i of None \<Rightarrow> None | Some v \<Rightarrow> v)"

section \<open>Chunk scanner\<close>

text \<open>
  \<^verbatim>\<open>find_blocks_by_id\<close>: the loop appends one coordinate dict
  \<^verbatim>\<open>{"x": .., "y": .., "z": ..}\<close> to \<^verbatim>\<open>coordinates\<close> for each block whose id is the
  target.
\<close>

type_synonym coord = "(string, int) pydict"

definition coord_of :: "block \<Rightarrow> coord" where
  "coord_of b = [(''x'', block_x b), (''y'', block_y b), (''z'', block_z b)]"

fun find_loop :: "int \<Rightarrow> block list \<Rightarrow> coord list \<Rightarrow> coord list" where
  "find_loop target [] coordinates = coordinates"
| "find_loop target (b # blocks) coordinates =
     (if target = block_id b then find_loop target blocks (coordinates @ [coord_of b])
      else find_loop target blocks coordinates)"

definition find_blocks_by_id :: "int \<Rightarrow> block list \<Rightarrow> coord list" where
  "find_blocks_by_id target blocks = find_loop target blocks []"

section \<open>Chunk aggregator\<close>

text \<open>
  The name under which \<^verbatim>\<open>count_blocks_in_chunk\<close> counts a block (lines 97 to 99):
  the table's value, or the decimal form of the id when the lookup gives \<^verbatim>\<open>None\<close> and
  the id is not 0.
\<close>

definition block_name_of :: "int \<Rightarrow> string option" where
  "block_name_of i =
     (let block_name = names_get i
      in if block_name = None \<and> i \<noteq> 0 then Some (str_int i) else block_name)"

type_synonym counts = "(string option, int) pydict"

fun count_loop :: "block list \<Rightarrow> counts \<Rightarrow> counts" where
  "count_loop [] block_counts = block_counts"
| "count_loop (b # chunk_blocks) block_counts =
     (if block_id b = 0 then count_loop chunk_blocks block_counts
      else
        let block_name = block_name_of (block_id b)
        in case map_of block_counts block_name of
             Some n \<Rightarrow> count_loop chunk_blocks (dict_set block_name (n + 1) block_counts)
           | None \<Rightarrow> count_loop chunk_blocks (dict_set block_name 1 block_counts))"

definition count_blocks_in_chunk :: "block list \<Rightarrow> counts" where
  "count_blocks_in_chunk chunk_blocks = count_loop chunk_blocks []"

section \<open>The external provider\<close>

text \<open>
  The modules \<^verbatim>\<open>chunks\<close> and \<^verbatim>\<open>anvil\<close> are not part of the script. The three
  calls the script makes are parameters of the model; each either returns a list or
  raises, and a raise is the value \<open>Inl e\<close>. Files are of any type \<open>'f\<close>. The calls are
  functions of their arguments: the model does not cover a provider that answers the same
  call differently at different times.
\<close>

datatype error = ProviderError string

record ('f, 'd) provider =
  get_mca_files :: "string \<Rightarrow> string \<Rightarrow> error + 'f list"
  get_list_of_chunks_by_mca :: "'f \<Rightarrow> error + 'd chunk list"
  get_chunk_matrice :: "'d chunk \<Rightarrow> error + block list"

section \<open>Counting one id over a list of chunks\<close>

text \<open>
  \<^verbatim>\<open>find_blocks_in_chunks\<close> appends, for each chunk, a dict with the single key
  \<^verbatim>\<open>(chunk.x, chunk.z)\<close> and the value \<^verbatim>\<open>len(coordinates)\<close>. The script catches no
  exception, so a raise of the provider ends the loop with that error.
\<close>

type_synonym chunk_count = "(int \<times> int, int) pydict"

fun find_chunks_loop ::
  "('f, 'd) provider \<Rightarrow> int \<Rightarrow> 'd chunk list \<Rightarrow> chunk_count list \<Rightarrow> error + chunk_count list"
where
  "find_chunks_loop P target [] results = Inr results"
| "find_chunks_loop P target (c # chunk_list) results =
     (case get_chunk_matrice P c of
        Inl e \<Rightarrow> Inl e
      | Inr blocks \<Rightarrow>
          let coordinates = find_blocks_by_id target blocks
          in find_chunks_loop P target chunk_list
               (results @ [[((chunk_x c, chunk_z c), int (length coordinates))]]))"

definition find_blocks_in_chunks ::
  "('f, 'd) provider \<Rightarrow> int \<Rightarrow> 'd chunk list \<Rightarrow> error + chunk_count list"
where
  "find_blocks_in_chunks P target chunk_list = find_chunks_loop P target chunk_list []"

section \<open>World analyzer\<close>

text \<open>The label \<^verbatim>\<open>f"x:{chunk.x*16}, z:{chunk.z*16}"\<close>.\<close>

definition chunk_key :: "'d chunk \<Rightarrow> string" where
  "chunk_key c = ''x:'' @ str_int (chunk_x c * 16) @ '', z:'' @ str_int (chunk_z c * 16)"

type_synonym report = "(string, counts) pydict"

text \<open>
  The inner and the outer loop of lines 131 to 144. \<^verbatim>\<open>if block_counts:\<close> is true exactly
  for a dict that is not empty.
\<close>

fun scan_chunks :: "('f, 'd) provider \<Rightarrow> 'd chunk list \<Rightarrow> report \<Rightarrow> error + report" where
  "scan_chunks P [] blocks_by_location = Inr blocks_by_location"
| "scan_chunks P (c # chunk_list) blocks_by_location =
     (case get_chunk_matrice P c of
        Inl e \<Rightarrow> Inl e
      | Inr block_list \<Rightarrow>
          let block_counts = count_blocks_in_chunk block_list
          in if block_counts \<noteq> []
             then scan_chunks P chunk_list (dict_set (chunk_key c) block_counts blocks_by_location)
             else scan_chunks P chunk_list blocks_by_location)"

fun scan_files :: "('f, 'd) provider \<Rightarrow> 'f list \<Rightarrow> report \<Rightarrow> error + report" where
  "scan_files P [] blocks_by_location = Inr blocks_by_location"
| "scan_files P (file # files) blocks_by_location =
     (case get_list_of_chunks_by_mca P file of
        Inl e \<Rightarrow> Inl e
      | Inr chunk_list \<Rightarrow>
          (case scan_chunks P chunk_list blocks_by_location of
             Inl e \<Rightarrow> Inl e
           | Inr blocks_by_location' \<Rightarrow> scan_files P files blocks_by_location'))"

text \<open>
  What \<^verbatim>\<open>print\<close> writes for a count dict: Python's \<^verbatim>\<open>repr\<close> of a dict, the items
  in order, separated by a comma and a space, between braces. The \<^verbatim>\<open>repr\<close> of a string
  that has no quote, no backslash and only printable ASCII characters is the string
  between single quotes; lemma \<open>count_keys_plain\<close> below shows that every key of a count
  dict is such a string.
\<close>

definition repr_key :: "string option \<Rightarrow> string" where
  "repr_key k = (case k of None \<Rightarrow> ''None'' | Some s \<Rightarrow> [CHR 0x27] @ s @ [CHR 0x27])"

definition repr_item :: "string option \<times> int \<Rightarrow> string" where
  "repr_item kv = repr_key (fst kv) @ '': '' @ str_int (snd kv)"

fun join_comma :: "string list \<Rightarrow> string" where
  "join_comma [] = []"
| "join_comma [s] = s"
| "join_comma (s # t # ss) = s @ '', '' @ join_comma (t # ss)"

definition repr_counts :: "counts \<Rightarrow> string" where
  "repr_counts d = ''{'' @ join_comma (map repr_item d) @ ''}''"

text \<open>
  The dict \<^verbatim>\<open>totals\<close> has the three keys \<^verbatim>\<open>"chest"\<close>, \<^verbatim>\<open>"obsidian"\<close>, \<^verbatim>\<open>"rf"\<close> from
  its creation on and no key is ever added, so it is a record of three integers.
\<close>

record totals =
  chest :: int
  obsidian :: int
  rf :: int

text \<open>
  The loop of lines 147 to 153 over \<^verbatim>\<open>blocks_by_location.items()\<close>. The printed lines
  are state: the list \<open>out\<close> of the lines written so far.
\<close>

fun report_loop :: "report \<Rightarrow> totals \<Rightarrow> string list \<Rightarrow> totals \<times> string list" where
  "report_loop [] tot out = (tot, out)"
| "report_loop ((location, block_data) # rest) tot out =
     report_loop rest
       (tot\<lparr>rf := rf tot + dict_get_default block_data (Some ''rf'') 0,
            obsidian := obsidian tot + dict_get_default block_data (Some ''obsidian'') 0,
            chest := chest tot + dict_get_default block_data (Some ''chest'') 0\<rparr>)
       (out @ [location @ '': '' @ repr_counts block_data])"

text \<open>
  \<^verbatim>\<open>analyze_world_chunks\<close> returns nothing; the model returns how the run ends (\<open>Inr ()\<close>,
  or \<open>Inl e\<close> for the exception that leaves the function) and the lines printed until
  then.
\<close>

definition analyze_world_chunks :: "('f, 'd) provider \<Rightarrow> (error + unit) \<times> string list" where
  "analyze_world_chunks P =
     (case get_mca_files P ''cyan'' '''' of
        Inl e \<Rightarrow> (Inl e, [])
      | Inr files \<Rightarrow>
          (case scan_files P files [] of
             Inl e \<Rightarrow> (Inl e, [])
           | Inr blocks_by_location \<Rightarrow>
               (case report_loop blocks_by_location \<lparr>chest = 0, obsidian = 0, rf = 0\<rparr> [] of
                  (tot, out) \<Rightarrow>
                    (Inr (),
                     out @ [''Total chests: '' @ str_int (chest tot),
                            ''Total obsidian: '' @ str_int (obsidian tot),
                            ''Total RF blocks: '' @ str_int (rf tot)]))))"

section \<open>Auxiliary definitions for the proofs\<close>

text \<open>
  Reading a decimal string back, the inverse of \<open>str_int\<close>; it shows that two
  integers with the same decimal form are equal.
\<close>

definition digit_val :: "char \<Rightarrow> nat" where
  "digit_val c = of_char c - 48"

definition parse_nat :: "string \<Rightarrow> nat" where
  "parse_nat s = foldl (\<lambda>acc c. 10 * acc + digit_val c) 0 s"

definition parse_int :: "string \<Rightarrow> int" where
  "parse_int s =
     (case s of
        [] \<Rightarrow> 0
      | c # r \<Rightarrow> if c = CHR ''-'' then - int (parse_nat r) else int (parse_nat s))"

text \<open>
  The id under which a name stands first in the table (54 for the two chest ids); it shows
  that the table gives one name to two ids only for 54 and 146.
\<close>

definition id_of_name :: "string \<Rightarrow> int" where
  "id_of_name n =
     (case map_of (map (\<lambda>(i, v). (v, i)) BLOCK_ID_NAMES) (Some n) of
        Some i \<Rightarrow> i
      | None \<Rightarrow> 0)"

text \<open>
  The number of blocks of a list that are not air and are counted under the name \<open>k\<close>.
\<close>

definition occurrences :: "string option \<Rightarrow> block list \<Rightarrow> int" where
  "occurrences k blocks =
     int (length (filter (\<lambda>b. block_id b \<noteq> 0 \<and> block_name_of (block_id b) = k) blocks))"

text \<open>
  What the provider returns where it returns: the chunks of a file and the blocks of a
  chunk (the empty list where it raises), the chunks of a list of files in the order the
  run meets them, and whether every call the run can make on these files returns.
\<close>

definition chunks_of :: "('f, 'd) provider \<Rightarrow> 'f \<Rightarrow> 'd chunk list" where
  "chunks_of P file = (case get_list_of_chunks_by_mca P file of Inl e \<Rightarrow> [] | Inr cs \<Rightarrow> cs)"

definition blocks_of :: "('f, 'd) provider \<Rightarrow> 'd chunk \<Rightarrow> block list" where
  "blocks_of P c = (case get_chunk_matrice P c of Inl e \<Rightarrow> [] | Inr bs \<Rightarrow> bs)"

definition all_chunks :: "('f, 'd) provider \<Rightarrow> 'f list \<Rightarrow> 'd chunk list" where
  "all_chunks P files = concat (map (chunks_of P) files)"

definition provider_ok :: "('f, 'd) provider \<Rightarrow> 'f list \<Rightarrow> bool" where
  "provider_ok P files \<longleftrightarrow>
     list_all (\<lambda>file. \<not> isl (get_list_of_chunks_by_mca P file)) files \<and>
     list_all (\<lambda>c. \<not> isl (get_chunk_matrice P c)) (all_chunks P files)"

text \<open>The count dict of a chunk and the entry the run stores for it.\<close>

definition chunk_counts :: "('f, 'd) provider \<Rightarrow> 'd chunk \<Rightarrow> counts" where
  "chunk_counts P c = count_blocks_in_chunk (blocks_of P c)"

definition entry_of :: "('f, 'd) provider \<Rightarrow> 'd chunk \<Rightarrow> string \<times> counts" where
  "entry_of P c = (chunk_key c, chunk_counts P c)"

text \<open>
  Storing a list of entries in a report, as lines 142 to 144 do for one chunk after the
  other: an entry with an empty count dict is skipped.
\<close>

fun store_all :: "(string \<times> counts) list \<Rightarrow> report \<Rightarrow> report" where
  "store_all [] r = r"
| "store_all ((l, bc) # es) r = store_all es (if bc \<noteq> [] then dict_set l bc r else r)"

text \<open>
  The entries, and the chunks, that no later one with the same label and a count dict that
  is not empty replaces.
\<close>

definition live :: "(string \<times> counts) list \<Rightarrow> string set" where
  "live es = fst ` set (filter (\<lambda>e. snd e \<noteq> []) es)"

fun kept :: "(string \<times> counts) list \<Rightarrow> (string \<times> counts) list" where
  "kept [] = []"
| "kept (e # es) = (if fst e \<in> live es then kept es else e # kept es)"

fun kept_chunks :: "('f, 'd) provider \<Rightarrow> 'd chunk list \<Rightarrow> 'd chunk list" where
  "kept_chunks P [] = []"
| "kept_chunks P (c # cs) =
     (if list_ex (\<lambda>c'. chunk_key c' = chunk_key c \<and> chunk_counts P c' \<noteq> []) cs
      then kept_chunks P cs else c # kept_chunks P cs)"

text \<open>The number of blocks of a list whose id is one of \<open>ids\<close>.\<close>

definition count_ids :: "int list \<Rightarrow> block list \<Rightarrow> int" where
  "count_ids ids blocks = int (length (filter (\<lambda>b. block_id b \<in> set ids) blocks))"

text \<open>The line that \<^verbatim>\<open>print(f"{location}: {block_data}")\<close> writes for an entry of the report.\<close>

definition report_line :: "string \<times> counts \<Rightarrow> string" where
  "report_line e = fst e @ '': '' @ repr_counts (snd e)"

text \<open>The sum of the counts that the entries of a report hold under one key.\<close>

definition key_total :: "string \<Rightarrow> report \<Rightarrow> int" where
  "key_total k r = sum_list (map (\<lambda>e. dict_get_default (snd e) (Some k) 0) r)"

section \<open>Example inputs\<close>

text \<open>A block with a given id, at the origin.\<close>

definition blk :: "int \<Rightarrow> block" where
  "blk i = \<lparr>block_id = i, block_x = 0, block_y = 0, block_z = 0\<rparr>"

text \<open>
  A provider with two files. The first holds the chunk (5, -3), with four blocks of id
  3886 and one air block, and the chunk (0, 0), all air; the second holds the chunk
  (1, 1) with two chests, one obsidian block and a block of the unknown id 9999.
\<close>

definition demo_provider :: "(int, int) provider" where
  "demo_provider =
     \<lparr>get_mca_files = (\<lambda>world path. Inr [0, 1]),
      get_list_of_chunks_by_mca =
        (\<lambda>file. if file = 0
                then Inr [\<lparr>chunk_x = 5, chunk_z = - 3, chunk_data = 0\<rparr>,
                          \<lparr>chunk_x = 0, chunk_z = 0, chunk_data = 1\<rparr>]
                else Inr [\<lparr>chunk_x = 1, chunk_z = 1, chunk_data = 2\<rparr>]),
      get_chunk_matrice =
        (\<lambda>c. if chunk_data c = 0 then Inr [blk 3886, blk 0, blk 3886, blk 3886, blk 3886]
             else if chunk_data c = 1 then Inr [blk 0, blk 0]
             else Inr [blk 54, blk 146, blk 49, blk 9999])\<rparr>"

text \<open>
  A provider whose two files both hold a chunk with the coordinates (0, 0): the first with
  one chest of id 54, the second with one chest of id 146 and one obsidian block.
\<close>

definition twin_provider :: "(int, int) provider" where
  "twin_provider =
     \<lparr>get_mca_files = (\<lambda>world path. Inr [0, 1]),
      get_list_of_chunks_by_mca =
        (\<lambda>file. Inr [\<lparr>chunk_x = 0, chunk_z = 0, chunk_data = file\<rparr>]),
      get_chunk_matrice =
        (\<lambda>c. if chunk_data c = 0 then Inr [blk 54] else Inr [blk 146, blk 49])\<rparr>"

text \<open>
  A provider that decodes the first chunk of its first file and raises on the second
  chunk.
\<close>

definition corrupt_provider :: "(int, int) provider" where
  "corrupt_provider =
     \<lparr>get_mca_files = (\<lambda>world path. Inr [0, 1]),
      get_list_of_chunks_by_mca =
        (\<lambda>file. if file = 0
                then Inr [\<lparr>chunk_x = 5, chunk_z = - 3, chunk_data = 0\<rparr>,
                          \<lparr>chunk_x = 0, chunk_z = 0, chunk_data = 1\<rparr>]
                else Inr [\<lparr>chunk_x = 1, chunk_z = 1, chunk_data = 2\<rparr>]),
      get_chunk_matrice =
        (\<lambda>c. if chunk_data c = 1 then Inl (ProviderError ''corrupt chunk'')
             else Inr [blk 3886, blk 54])\<rparr>"

section \<open>Properties of the chunk scanner\<close>

lemma find_loop_filter:
  "find_loop target blocks coordinates =
     coordinates @ map coord_of (filter (\<lambda>b. block_id b = target) blocks)"
  by (induction blocks arbitrary: coordinates) auto

text \<open>
  Claim C3. \<^verbatim>\<open>find_blocks_by_id\<close> returns one coordinate dict per block whose id is the
  target, in the order of the input, holding that block's \<^verbatim>\<open>x\<close>, \<^verbatim>\<open>y\<close> and \<^verbatim>\<open>z\<close>; the
  length of the result is the number of matching blocks; an empty input and an input
  without a match give the empty list.
\<close>

theorem find_blocks_by_id_matches:
  "find_blocks_by_id target blocks =
     map (\<lambda>b. [(''x'', block_x b), (''y'', block_y b), (''z'', block_z b)])
       (filter (\<lambda>b. block_id b = target) blocks)
   \<and> length (find_blocks_by_id target blocks) =
       length (filter (\<lambda>b. block_id b = target) blocks)
   \<and> find_blocks_by_id target [] = []
   \<and> find_blocks_by_id target (filter (\<lambda>b. block_id b \<noteq> target) blocks) = []"
proof -
  have eq: "find_blocks_by_id t bs = map coord_of (filter (\<lambda>b. block_id b = t) bs)" for t bs
    by (simp add: find_blocks_by_id_def find_loop_filter)
  have none: "filter (\<lambda>b. block_id b = target) (filter (\<lambda>b. block_id b \<noteq> target) blocks) = []"
    by (induction blocks) auto
  show ?thesis
    by (simp add: eq none coord_of_def)
qed

theorem find_blocks_by_id_matches_witness:
  "find_blocks_by_id 54
     [\<lparr>block_id = 0, block_x = 9, block_y = 9, block_z = 9\<rparr>,
      \<lparr>block_id = 54, block_x = 1, block_y = 2, block_z = 3\<rparr>,
      \<lparr>block_id = 49, block_x = 0, block_y = 0, block_z = 0\<rparr>,
      \<lparr>block_id = 54, block_x = 4, block_y = 5, block_z = 6\<rparr>]
   = [[(''x'', 1), (''y'', 2), (''z'', 3)], [(''x'', 4), (''y'', 5), (''z'', 6)]]"
  using find_blocks_by_id_matches [of 54
     "[\<lparr>block_id = 0, block_x = 9, block_y = 9, block_z = 9\<rparr>,
      \<lparr>block_id = 54, block_x = 1, block_y = 2, block_z = 3\<rparr>,
      \<lparr>block_id = 49, block_x = 0, block_y = 0, block_z = 0\<rparr>,
      \<lparr>block_id = 54, block_x = 4, block_y = 5, block_z = 6\<rparr>]"]
  by simp

section \<open>Decimal strings\<close>

lemma digits_ne: "digits n \<noteq> []"
  by (subst digits.simps) simp

lemma digit_val_char: "d < 10 \<Longrightarrow> digit_val (digit_char d) = d"
proof -
  assume "d < 10"
  then have "d \<in> {0, 1, 2, 3, 4, 5, 6, 7, 8, 9}" by auto
  then show ?thesis by (auto simp: digit_val_def digit_char_def)
qed

lemma digit_char_in: "d < 10 \<Longrightarrow> digit_char d \<in> set ''0123456789''"
  unfolding digit_char_def by (rule nth_mem) simp

lemma digits_chars: "set (digits n) \<subseteq> set ''0123456789''"
proof (induction n rule: digits.induct)
  case (1 n)
  show ?case
  proof (cases "n < 10")
    case True
    then show ?thesis using digit_char_in [of n] by (subst digits.simps) simp
  next
    case False
    then have "set (digits (n div 10)) \<subseteq> set ''0123456789''" using 1 by simp
    moreover have "digit_char (n mod 10) \<in> set ''0123456789''" by (rule digit_char_in) simp
    ultimately show ?thesis using False by (subst digits.simps) simp
  qed
qed

lemma parse_nat_digits: "parse_nat (digits n) = n"
proof (induction n rule: digits.induct)
  case (1 n)
  show ?case
  proof (cases "n < 10")
    case True
    then show ?thesis by (subst digits.simps) (simp add: parse_nat_def digit_val_char)
  next
    case False
    then have "parse_nat (digits (n div 10)) = n div 10" using 1 by simp
    then show ?thesis using False
      by (subst digits.simps) (simp add: parse_nat_def digit_val_char)
  qed
qed

lemma str_int_chars: "set (str_int i) \<subseteq> set ''-0123456789''"
proof -
  have sub: "set ''0123456789'' \<subseteq> set ''-0123456789''" by simp
  have A: "set (digits n) \<subseteq> set ''-0123456789''" for n
    using digits_chars [of n] sub by (rule subset_trans)
  have B: "CHR ''-'' \<in> set ''-0123456789''" by simp
  show ?thesis
  proof (cases "i < 0")
    case True
    then have "set (str_int i) = insert (CHR ''-'') (set (digits (nat (- i))))"
      by (simp add: str_int_def)
    then show ?thesis using A [of "nat (- i)"] B by (simp only: insert_subset)
  next
    case False
    then have "str_int i = digits (nat i)" by (simp add: str_int_def)
    then show ?thesis using A [of "nat i"] by (simp only:)
  qed
qed

lemma str_int_ne: "str_int i \<noteq> []"
  by (simp add: str_int_def digits_ne)

lemma hd_str_int: "hd (str_int i) \<in> set ''-0123456789''"
  using str_int_chars [of i] hd_in_set [OF str_int_ne, of i] by (rule subsetD)

lemma parse_int_str_int: "parse_int (str_int i) = i"
proof (cases "i < 0")
  case True
  then show ?thesis by (simp add: str_int_def parse_int_def parse_nat_digits)
next
  case False
  obtain c r where cr: "digits (nat i) = c # r"
    using digits_ne [of "nat i"] by (cases "digits (nat i)") auto
  have "c \<in> set ''0123456789''" using digits_chars [of "nat i"] cr by auto
  then have "c \<noteq> CHR ''-''" by auto
  then show ?thesis using False cr parse_nat_digits [of "nat i"]
    by (simp add: str_int_def parse_int_def)
qed

lemma str_int_inj: "str_int i = str_int j \<Longrightarrow> i = j"
  by (metis parse_int_str_int)

lemma names_get_hd: "names_get j = Some n \<Longrightarrow> hd n \<notin> set ''-0123456789''"
  by (auto simp: names_get_def BLOCK_ID_NAMES_def split: if_splits)

lemma names_get_str_int: "names_get j \<noteq> Some (str_int i)"
  using names_get_hd [of j "str_int i"] hd_str_int [of i] by blast

section \<open>The classification of an id\<close>

lemma names_get_in_table: "names_get i = Some n \<Longrightarrow> (i, Some n) \<in> set BLOCK_ID_NAMES"
  by (auto simp: names_get_def split: option.splits dest: map_of_SomeD)

lemma id_of_name_table:
  "list_all (\<lambda>(i, v). case v of None \<Rightarrow> True | Some n \<Rightarrow> id_of_name n = (if i = 146 then 54 else i))
     BLOCK_ID_NAMES"
  by (simp add: BLOCK_ID_NAMES_def id_of_name_def)

lemma id_of_name_get:
  "names_get i = Some n \<Longrightarrow> id_of_name n = (if i = 146 then 54 else i)"
  using id_of_name_table names_get_in_table [of i n]
  unfolding list_all_iff by fastforce

lemma names_get_inj:
  assumes "names_get i = Some n" and "names_get j = Some n"
  shows "i = j \<or> (i = 54 \<and> j = 146) \<or> (i = 146 \<and> j = 54)"
proof -
  have "(if i = 146 then 54 else i) = (if j = 146 then 54 else j)"
    using id_of_name_get [OF assms(1)] id_of_name_get [OF assms(2)] by simp
  then show ?thesis by (simp split: if_splits)
qed

lemma map_of_table_zero: "map_of BLOCK_ID_NAMES 0 = Some None"
  by (simp add: BLOCK_ID_NAMES_def)

lemma table_values:
  "list_all (\<lambda>(i, v). (v = None) = (i = 0)) BLOCK_ID_NAMES"
  by (simp add: BLOCK_ID_NAMES_def)

lemma map_of_table_None: "map_of BLOCK_ID_NAMES i = Some v \<Longrightarrow> (v = None) = (i = 0)"
  using table_values map_of_SomeD [of BLOCK_ID_NAMES i v]
  unfolding list_all_iff by fastforce

lemma block_name_of_table:
  "block_name_of i = (case map_of BLOCK_ID_NAMES i of Some v \<Rightarrow> v | None \<Rightarrow> Some (str_int i))"
proof (cases "map_of BLOCK_ID_NAMES i")
  case None
  then have "i \<noteq> 0" using map_of_table_zero by auto
  then show ?thesis using None by (simp add: block_name_of_def names_get_def)
next
  case (Some v)
  then show ?thesis using map_of_table_None [OF Some]
    by (auto simp: block_name_of_def names_get_def)
qed

lemma block_name_of_cases:
  "i \<noteq> 0 \<Longrightarrow>
     (names_get i = None \<and> block_name_of i = Some (str_int i)) \<or>
     (\<exists>n. names_get i = Some n \<and> block_name_of i = Some n)"
  by (cases "names_get i") (auto simp: block_name_of_def)

lemma block_name_of_zero: "block_name_of 0 = None"
  by (simp add: block_name_of_table map_of_table_zero)

lemma block_name_of_Some: "i \<noteq> 0 \<Longrightarrow> block_name_of i \<noteq> None"
  using block_name_of_cases [of i] by auto

lemma block_name_of_inj:
  assumes eq: "block_name_of i = block_name_of j" and i: "i \<noteq> 0" and j: "j \<noteq> 0"
  shows "i = j \<or> (i = 54 \<and> j = 146) \<or> (i = 146 \<and> j = 54)"
proof (cases "names_get i")
  case None
  then have ni: "block_name_of i = Some (str_int i)" using i by (simp add: block_name_of_def)
  show ?thesis
  proof (cases "names_get j")
    case None
    then have "block_name_of j = Some (str_int j)" using j by (simp add: block_name_of_def)
    then have "i = j" using ni eq str_int_inj by simp
    then show ?thesis by simp
  next
    case (Some m)
    then have "block_name_of j = Some m" by (simp add: block_name_of_def)
    then have "names_get j = Some (str_int i)" using Some ni eq by simp
    then show ?thesis using names_get_str_int by blast
  qed
next
  case (Some n)
  then have ni: "block_name_of i = Some n" by (simp add: block_name_of_def)
  show ?thesis
  proof (cases "names_get j")
    case None
    then have "block_name_of j = Some (str_int j)" using j by (simp add: block_name_of_def)
    then have "names_get i = Some (str_int j)" using Some ni eq by simp
    then show ?thesis using names_get_str_int by blast
  next
    case (Some m)
    then have "block_name_of j = Some m" by (simp add: block_name_of_def)
    then have "names_get j = Some n" using Some ni eq by simp
    then show ?thesis using \<open>names_get i = Some n\<close> names_get_inj by blast
  qed
qed

section \<open>Python dicts and the counting loop\<close>

lemma map_of_dict_set: "map_of (dict_set k v d) = (map_of d)(k \<mapsto> v)"
  by (induction d) (auto simp: fun_eq_iff)

lemma keys_dict_set:
  "map fst (dict_set k v d) = (if k \<in> fst ` set d then map fst d else map fst d @ [k])"
  by (induction k v d rule: dict_set.induct) force+

lemma distinct_dict_set: "distinct (map fst d) \<Longrightarrow> distinct (map fst (dict_set k v d))"
  by (simp add: keys_dict_set)

lemma dict_set_ne: "dict_set k v d \<noteq> []"
  by (induction k v d rule: dict_set.induct) auto

lemma sum_dict_set_Some:
  "map_of d k = Some n \<Longrightarrow> sum_list (map snd (dict_set k (n + 1) d)) = sum_list (map snd d) + (1::int)"
  by (induction d) (auto split: if_splits)

lemma sum_dict_set_None:
  "map_of d k = None \<Longrightarrow> sum_list (map snd (dict_set k 1 d)) = sum_list (map snd d) + (1::int)"
  by (induction d) (auto split: if_splits)

lemma occurrences_Nil: "occurrences k [] = 0"
  by (simp add: occurrences_def)

lemma occurrences_Cons:
  "occurrences k (b # bs) =
     (if block_id b \<noteq> 0 \<and> block_name_of (block_id b) = k then 1 else 0) + occurrences k bs"
  by (simp add: occurrences_def)

lemma occurrences_nonneg: "0 \<le> occurrences k blocks"
  by (simp add: occurrences_def)

lemma map_of_count_loop:
  "map_of (count_loop blocks acc) k =
     (case map_of acc k of
        Some n \<Rightarrow> Some (n + occurrences k blocks)
      | None \<Rightarrow> if occurrences k blocks = 0 then None else Some (occurrences k blocks))"
proof (induction blocks arbitrary: acc)
  case Nil
  show ?case by (simp add: occurrences_Nil split: option.splits)
next
  case (Cons b blocks)
  show ?case
    using occurrences_nonneg [of k blocks]
    by (auto simp: Cons.IH Let_def map_of_dict_set occurrences_Cons split: option.splits)
qed

lemma distinct_count_loop:
  "distinct (map fst acc) \<Longrightarrow> distinct (map fst (count_loop blocks acc))"
  by (induction blocks arbitrary: acc) (auto simp: Let_def distinct_dict_set split: option.splits)

lemma sum_count_loop:
  "sum_list (map snd (count_loop blocks acc)) =
     sum_list (map snd acc) + int (length (filter (\<lambda>b. block_id b \<noteq> 0) blocks))"
  by (induction blocks arbitrary: acc)
     (auto simp: Let_def sum_dict_set_Some sum_dict_set_None split: option.splits)

lemma map_of_count_blocks:
  "map_of (count_blocks_in_chunk blocks) k =
     (if occurrences k blocks = 0 then None else Some (occurrences k blocks))"
  by (simp add: count_blocks_in_chunk_def map_of_count_loop)

lemma distinct_count_blocks: "distinct (map fst (count_blocks_in_chunk blocks))"
  by (simp add: count_blocks_in_chunk_def distinct_count_loop)

lemma occurrences_pos_iff:
  "occurrences k blocks \<noteq> 0 \<longleftrightarrow> (\<exists>b \<in> set blocks. block_id b \<noteq> 0 \<and> block_name_of (block_id b) = k)"
  by (auto simp: occurrences_def filter_empty_conv)

lemma keys_count_blocks:
  "fst ` set (count_blocks_in_chunk blocks) =
     block_name_of ` (block_id ` set blocks - {0})"
proof -
  have "fst ` set (count_blocks_in_chunk blocks) = dom (map_of (count_blocks_in_chunk blocks))"
    by (simp add: dom_map_of_conv_image_fst)
  also have "\<dots> = {k. occurrences k blocks \<noteq> 0}"
    by (auto simp: map_of_count_blocks dom_def)
  also have "\<dots> = block_name_of ` (block_id ` set blocks - {0})"
    by (auto simp: occurrences_pos_iff)
  finally show ?thesis .
qed

lemma entry_count_blocks:
  "(k, n) \<in> set (count_blocks_in_chunk blocks) \<longleftrightarrow> (n = occurrences k blocks \<and> n \<noteq> 0)"
proof -
  have "(k, n) \<in> set (count_blocks_in_chunk blocks) \<longleftrightarrow>
        map_of (count_blocks_in_chunk blocks) k = Some n"
    using distinct_count_blocks [of blocks] by simp
  then show ?thesis by (auto simp: map_of_count_blocks)
qed

lemma count_blocks_filter_air:
  "count_loop (filter (\<lambda>b. block_id b \<noteq> 0) blocks) acc = count_loop blocks acc"
  by (induction blocks arbitrary: acc) (auto simp: Let_def split: option.splits)

section \<open>Properties of the chunk aggregator\<close>

lemma str_int_9999: "str_int 9999 = ''9999''"
  by (simp add: str_int_def digits.simps digit_char_def)

lemma str_int_0: "str_int 0 = ''0''"
  by (simp add: str_int_def digits.simps digit_char_def)

lemma card_names_eq:
  assumes "0 \<notin> I" and "\<not> (54 \<in> I \<and> 146 \<in> I)"
  shows "card (block_name_of ` I) = card I"
proof -
  have "inj_on block_name_of I"
  proof (rule inj_onI)
    fix i j assume "i \<in> I" "j \<in> I" "block_name_of i = block_name_of j"
    then show "i = j" using block_name_of_inj [of i j] assms by auto
  qed
  then show ?thesis by (rule card_image)
qed

lemma block_name_of_chest: "block_name_of 54 = block_name_of 146"
  by (simp add: block_name_of_def names_get_def BLOCK_ID_NAMES_def)

lemma card_names_both:
  assumes "0 \<notin> I" and "54 \<in> I" and "146 \<in> I" and "finite I"
  shows "card (block_name_of ` I) = card I - 1"
proof -
  have "block_name_of ` I = block_name_of ` (I - {146})"
  proof
    show "block_name_of ` I \<subseteq> block_name_of ` (I - {146})"
    proof
      fix k assume "k \<in> block_name_of ` I"
      then obtain i where i: "i \<in> I" "k = block_name_of i" by auto
      show "k \<in> block_name_of ` (I - {146})"
      proof (cases "i = 146")
        case True
        then have "k = block_name_of 54" using i block_name_of_chest by simp
        moreover have "54 \<in> I - {146}" using assms(2) by simp
        ultimately show ?thesis by blast
      next
        case False
        then show ?thesis using i by blast
      qed
    qed
  qed auto
  moreover have "card (block_name_of ` (I - {146})) = card (I - {146})"
    by (rule card_names_eq) (use assms in auto)
  moreover have "card (I - {146}) = card I - 1"
    using assms(3,4) by simp
  ultimately show ?thesis by simp
qed

lemma length_count_blocks:
  "length (count_blocks_in_chunk blocks) = card (block_name_of ` (block_id ` set blocks - {0}))"
proof -
  have "length (count_blocks_in_chunk blocks) = card (set (map fst (count_blocks_in_chunk blocks)))"
    using distinct_card [OF distinct_count_blocks, of blocks] by simp
  then show ?thesis by (simp add: keys_count_blocks)
qed

text \<open>
  Claim C1, as amended. For a block list without air blocks, the values of the result of
  \<^verbatim>\<open>count_blocks_in_chunk\<close> sum to the number N of blocks, and the result has one entry
  per distinct name of the blocks: that is K, the number of distinct ids, unless the ids
  54 and 146, which share the name chest, are both in the list, and then it is K - 1.
\<close>

theorem count_blocks_entries_sum:
  assumes "\<forall>b \<in> set blocks. block_id b \<noteq> 0"
  shows "sum_list (map snd (count_blocks_in_chunk blocks)) = int (length blocks)
       \<and> length (count_blocks_in_chunk blocks) = card (block_name_of ` block_id ` set blocks)
       \<and> (\<not> (54 \<in> block_id ` set blocks \<and> 146 \<in> block_id ` set blocks) \<longrightarrow>
            length (count_blocks_in_chunk blocks) = card (block_id ` set blocks))
       \<and> (54 \<in> block_id ` set blocks \<and> 146 \<in> block_id ` set blocks \<longrightarrow>
            length (count_blocks_in_chunk blocks) = card (block_id ` set blocks) - 1)"
proof -
  have no0: "0 \<notin> block_id ` set blocks" using assms by auto
  then have ids: "block_id ` set blocks - {0} = block_id ` set blocks" by simp
  have all: "filter (\<lambda>b. block_id b \<noteq> 0) blocks = blocks" using assms by simp
  have s: "sum_list (map snd (count_blocks_in_chunk blocks)) = int (length blocks)"
    by (simp add: count_blocks_in_chunk_def sum_count_loop all)
  have l: "length (count_blocks_in_chunk blocks) = card (block_name_of ` block_id ` set blocks)"
    by (simp add: length_count_blocks ids)
  have a: "card (block_name_of ` block_id ` set blocks) = card (block_id ` set blocks)"
    if "\<not> (54 \<in> block_id ` set blocks \<and> 146 \<in> block_id ` set blocks)"
    using card_names_eq [OF no0 that] .
  have b: "card (block_name_of ` block_id ` set blocks) = card (block_id ` set blocks) - 1"
    if "54 \<in> block_id ` set blocks \<and> 146 \<in> block_id ` set blocks"
    using card_names_both [OF no0, of] that by simp
  show ?thesis using s l a b by simp
qed

theorem count_blocks_entries_sum_witness:
  "sum_list (map snd (count_blocks_in_chunk
      [\<lparr>block_id = 54, block_x = 1, block_y = 2, block_z = 3\<rparr>,
       \<lparr>block_id = 54, block_x = 4, block_y = 5, block_z = 6\<rparr>,
       \<lparr>block_id = 49, block_x = 0, block_y = 0, block_z = 0\<rparr>])) = 3
   \<and> length (count_blocks_in_chunk
      [\<lparr>block_id = 54, block_x = 1, block_y = 2, block_z = 3\<rparr>,
       \<lparr>block_id = 54, block_x = 4, block_y = 5, block_z = 6\<rparr>,
       \<lparr>block_id = 49, block_x = 0, block_y = 0, block_z = 0\<rparr>]) = 2"
  using count_blocks_entries_sum [of
      "[\<lparr>block_id = 54, block_x = 1, block_y = 2, block_z = 3\<rparr>,
       \<lparr>block_id = 54, block_x = 4, block_y = 5, block_z = 6\<rparr>,
       \<lparr>block_id = 49, block_x = 0, block_y = 0, block_z = 0\<rparr>]"]
  by simp

theorem count_blocks_entries_counterexample:
  "card (block_id ` set
      [\<lparr>block_id = 54, block_x = 0, block_y = 0, block_z = 0\<rparr>,
       \<lparr>block_id = 146, block_x = 1, block_y = 0, block_z = 0\<rparr>]) = 2
   \<and> count_blocks_in_chunk
      [\<lparr>block_id = 54, block_x = 0, block_y = 0, block_z = 0\<rparr>,
       \<lparr>block_id = 146, block_x = 1, block_y = 0, block_z = 0\<rparr>] = [(Some ''chest'', 2)]"
  by (simp add: count_blocks_in_chunk_def block_name_of_def names_get_def BLOCK_ID_NAMES_def)

text \<open>
  Claim C4. The name under which the aggregator counts a block is the table's value when
  the id is in the table, and the decimal form of the id when it is not; a list of one
  block that is not air gives one entry under that name, and the keys of any result are
  these names of the ids of its blocks that are not air.
\<close>

theorem classification_by_table:
  "block_name_of i =
     (case map_of BLOCK_ID_NAMES i of Some v \<Rightarrow> v | None \<Rightarrow> Some (str_int i))
   \<and> (block_id b \<noteq> 0 \<longrightarrow>
        count_blocks_in_chunk [b] =
          [(case map_of BLOCK_ID_NAMES (block_id b) of
              Some v \<Rightarrow> v
            | None \<Rightarrow> Some (str_int (block_id b)), 1)])
   \<and> fst ` set (count_blocks_in_chunk blocks) =
        (\<lambda>j. case map_of BLOCK_ID_NAMES j of Some v \<Rightarrow> v | None \<Rightarrow> Some (str_int j)) `
          (block_id ` set blocks - {0})"
proof -
  have t: "block_name_of = (\<lambda>j. case map_of BLOCK_ID_NAMES j of Some v \<Rightarrow> v | None \<Rightarrow> Some (str_int j))"
    by (rule ext) (rule block_name_of_table)
  have one: "count_blocks_in_chunk [b] = [(block_name_of (block_id b), 1)]" if "block_id b \<noteq> 0"
    using that by (simp add: count_blocks_in_chunk_def)
  show ?thesis
    using one keys_count_blocks [of blocks] block_name_of_table [of i] by (simp add: t)
qed

theorem classification_by_table_witness:
  "block_name_of 9999 = Some ''9999''
   \<and> block_name_of 146 = Some ''chest''
   \<and> count_blocks_in_chunk [\<lparr>block_id = 9999, block_x = 1, block_y = 2, block_z = 3\<rparr>] =
       [(Some ''9999'', 1)]"
  using classification_by_table
          [of 9999 "\<lparr>block_id = 9999, block_x = 1, block_y = 2, block_z = 3\<rparr>" "[]"]
        classification_by_table
          [of 146 "\<lparr>block_id = 9999, block_x = 1, block_y = 2, block_z = 3\<rparr>" "[]"]
  by (simp add: BLOCK_ID_NAMES_def str_int_9999)

lemma key_zero_absent:
  assumes "i \<noteq> 0"
  shows "block_name_of i \<noteq> Some (str_int 0)"
proof
  assume eq: "block_name_of i = Some (str_int 0)"
  from block_name_of_cases [OF assms] show False
  proof
    assume "names_get i = None \<and> block_name_of i = Some (str_int i)"
    then have "str_int i = str_int 0" using eq by simp
    then show False using assms str_int_inj by blast
  next
    assume "\<exists>n. names_get i = Some n \<and> block_name_of i = Some n"
    then have "names_get i = Some (str_int 0)" using eq by auto
    then show False using names_get_str_int by blast
  qed
qed

text \<open>
  Claim C8. Air blocks contribute nothing to the result of \<^verbatim>\<open>count_blocks_in_chunk\<close>: the
  result is the one of the list without its air blocks; neither \<^verbatim>\<open>None\<close>, the table's
  value for air, nor \<^verbatim>\<open>"0"\<close>, the decimal form of the air id, is a key; every count is
  the number of blocks that are not air and bear the key's name; and the counts sum to
  the number of blocks that are not air.
\<close>

theorem air_never_counted:
  "count_blocks_in_chunk blocks = count_blocks_in_chunk (filter (\<lambda>b. block_id b \<noteq> 0) blocks)
   \<and> None \<notin> fst ` set (count_blocks_in_chunk blocks)
   \<and> Some ''0'' \<notin> fst ` set (count_blocks_in_chunk blocks)
   \<and> (\<forall>(k, n) \<in> set (count_blocks_in_chunk blocks).
        0 < n \<and>
        n = int (length (filter (\<lambda>b. block_id b \<noteq> 0 \<and> block_name_of (block_id b) = k) blocks)))
   \<and> sum_list (map snd (count_blocks_in_chunk blocks)) =
       int (length (filter (\<lambda>b. block_id b \<noteq> 0) blocks))"
proof -
  have a: "count_blocks_in_chunk blocks = count_blocks_in_chunk (filter (\<lambda>b. block_id b \<noteq> 0) blocks)"
    by (simp add: count_blocks_in_chunk_def count_blocks_filter_air)
  have b: "None \<notin> fst ` set (count_blocks_in_chunk blocks)"
    unfolding keys_count_blocks using block_name_of_Some by force
  have c: "Some ''0'' \<notin> fst ` set (count_blocks_in_chunk blocks)"
    unfolding keys_count_blocks using key_zero_absent by (force simp: str_int_0)
  have d: "0 < n \<and> n = int (length (filter (\<lambda>b. block_id b \<noteq> 0 \<and> block_name_of (block_id b) = k) blocks))"
    if "(k, n) \<in> set (count_blocks_in_chunk blocks)" for k n
    using that occurrences_nonneg [of k blocks]
    by (simp add: entry_count_blocks) (simp add: occurrences_def)
  have e: "sum_list (map snd (count_blocks_in_chunk blocks)) =
       int (length (filter (\<lambda>b. block_id b \<noteq> 0) blocks))"
    by (simp add: count_blocks_in_chunk_def sum_count_loop)
  show ?thesis using a b c d e by blast
qed

theorem air_never_counted_witness:
  "count_blocks_in_chunk
     [\<lparr>block_id = 0, block_x = 7, block_y = 7, block_z = 7\<rparr>,
      \<lparr>block_id = 54, block_x = 1, block_y = 2, block_z = 3\<rparr>,
      \<lparr>block_id = 54, block_x = 4, block_y = 5, block_z = 6\<rparr>,
      \<lparr>block_id = 49, block_x = 0, block_y = 0, block_z = 0\<rparr>]
   = count_blocks_in_chunk
     [\<lparr>block_id = 54, block_x = 1, block_y = 2, block_z = 3\<rparr>,
      \<lparr>block_id = 54, block_x = 4, block_y = 5, block_z = 6\<rparr>,
      \<lparr>block_id = 49, block_x = 0, block_y = 0, block_z = 0\<rparr>]
   \<and> sum_list (map snd (count_blocks_in_chunk
     [\<lparr>block_id = 0, block_x = 7, block_y = 7, block_z = 7\<rparr>,
      \<lparr>block_id = 54, block_x = 1, block_y = 2, block_z = 3\<rparr>,
      \<lparr>block_id = 54, block_x = 4, block_y = 5, block_z = 6\<rparr>,
      \<lparr>block_id = 49, block_x = 0, block_y = 0, block_z = 0\<rparr>])) = 3"
proof -
  note t = air_never_counted [of
     "[\<lparr>block_id = 0, block_x = 7, block_y = 7, block_z = 7\<rparr>,
      \<lparr>block_id = 54, block_x = 1, block_y = 2, block_z = 3\<rparr>,
      \<lparr>block_id = 54, block_x = 4, block_y = 5, block_z = 6\<rparr>,
      \<lparr>block_id = 49, block_x = 0, block_y = 0, block_z = 0\<rparr>]"]
  show ?thesis
    using t [THEN conjunct1] t [THEN conjunct2, THEN conjunct2, THEN conjunct2, THEN conjunct2]
    by simp
qed

lemma fallback_name_iff:
  assumes "map_of BLOCK_ID_NAMES i = None"
  shows "(j \<noteq> 0 \<and> block_name_of j = Some (str_int i)) \<longleftrightarrow> j = i"
proof -
  have i0: "i \<noteq> 0" using assms map_of_table_zero by auto
  have ni: "block_name_of i = Some (str_int i)" using assms by (simp add: block_name_of_table)
  have n54: "i \<noteq> 54" and n146: "i \<noteq> 146" using assms by (auto simp: BLOCK_ID_NAMES_def)
  show ?thesis
  proof
    assume "j \<noteq> 0 \<and> block_name_of j = Some (str_int i)"
    then have "j \<noteq> 0" and "block_name_of j = block_name_of i" using ni by simp_all
    then show "j = i" using block_name_of_inj [of j i] i0 n54 n146 by auto
  next
    assume "j = i" then show "j \<noteq> 0 \<and> block_name_of j = Some (str_int i)" using i0 ni by simp
  qed
qed

text \<open>
  Claim C10. The decimal form of an id that is not in the table differs from every name
  the table stores, so the key of such an id is the key of no id of the table, and in
  any result of \<^verbatim>\<open>count_blocks_in_chunk\<close> the count under that key is the number of
  blocks with exactly that id.
\<close>

theorem fallback_key_apart:
  assumes "map_of BLOCK_ID_NAMES i = None"
  shows "(\<forall>j v. map_of BLOCK_ID_NAMES j = Some v \<longrightarrow> v \<noteq> Some (str_int i))
       \<and> (\<forall>j. map_of BLOCK_ID_NAMES j \<noteq> None \<longrightarrow> block_name_of j \<noteq> block_name_of i)
       \<and> map_of (count_blocks_in_chunk blocks) (block_name_of i) =
           (if i \<in> block_id ` set blocks
            then Some (int (length (filter (\<lambda>b. block_id b = i) blocks)))
            else None)"
proof -
  have ni: "block_name_of i = Some (str_int i)" using assms by (simp add: block_name_of_table)
  have a: "v \<noteq> Some (str_int i)" if "map_of BLOCK_ID_NAMES j = Some v" for j v
  proof
    assume "v = Some (str_int i)"
    then have "names_get j = Some (str_int i)" using that by (simp add: names_get_def)
    then show False using names_get_str_int by blast
  qed
  have b: "block_name_of j \<noteq> block_name_of i" if nn: "map_of BLOCK_ID_NAMES j \<noteq> None" for j
  proof -
    obtain v where v: "map_of BLOCK_ID_NAMES j = Some v"
      using nn by auto
    then have "block_name_of j = v" by (simp add: block_name_of_table)
    then show ?thesis using a [OF v] ni by simp
  qed
  have f: "filter (\<lambda>b. block_id b \<noteq> 0 \<and> block_name_of (block_id b) = Some (str_int i)) blocks
         = filter (\<lambda>b. block_id b = i) blocks"
    using fallback_name_iff [OF assms] by (intro filter_cong) auto
  have c: "map_of (count_blocks_in_chunk blocks) (block_name_of i) =
           (if i \<in> block_id ` set blocks
            then Some (int (length (filter (\<lambda>b. block_id b = i) blocks)))
            else None)"
    by (auto simp: map_of_count_blocks ni occurrences_def f filter_empty_conv)
  show ?thesis using a b c by blast
qed

theorem fallback_key_apart_witness:
  "map_of (count_blocks_in_chunk
      [\<lparr>block_id = 9999, block_x = 1, block_y = 2, block_z = 3\<rparr>,
       \<lparr>block_id = 1, block_x = 4, block_y = 5, block_z = 6\<rparr>,
       \<lparr>block_id = 9999, block_x = 0, block_y = 0, block_z = 0\<rparr>]) (Some ''9999'') = Some 2"
proof -
  have absent: "map_of BLOCK_ID_NAMES 9999 = None"
    by (simp add: BLOCK_ID_NAMES_def)
  have name: "block_name_of 9999 = Some ''9999''"
    by (simp add: block_name_of_def names_get_def BLOCK_ID_NAMES_def str_int_9999)
  show ?thesis
    using fallback_key_apart [OF absent, of
      "[\<lparr>block_id = 9999, block_x = 1, block_y = 2, block_z = 3\<rparr>,
       \<lparr>block_id = 1, block_x = 4, block_y = 5, block_z = 6\<rparr>,
       \<lparr>block_id = 9999, block_x = 0, block_y = 0, block_z = 0\<rparr>]",
      THEN conjunct2, THEN conjunct2]
    by (simp add: name)
qed

section \<open>Properties of the count per chunk\<close>

lemma find_chunks_loop_ok:
  assumes "\<forall>c \<in> set chunk_list. \<not> isl (get_chunk_matrice P c)"
  shows "find_chunks_loop P target chunk_list results =
           Inr (results @ map (\<lambda>c. [((chunk_x c, chunk_z c),
                  int (length (filter (\<lambda>b. block_id b = target) (blocks_of P c))))]) chunk_list)"
  using assms
proof (induction chunk_list arbitrary: results)
  case Nil
  show ?case by simp
next
  case (Cons c chunk_list)
  from Cons.prems obtain bs where bs: "get_chunk_matrice P c = Inr bs"
    by (cases "get_chunk_matrice P c") auto
  have len: "length (find_blocks_by_id target bs) = length (filter (\<lambda>b. block_id b = target) bs)"
    by (simp add: find_blocks_by_id_def find_loop_filter)
  show ?case using Cons.prems bs
    by (simp add: Cons.IH len blocks_of_def)
qed

lemma find_chunks_loop_fail:
  assumes "\<exists>c \<in> set chunk_list. isl (get_chunk_matrice P c)"
  shows "isl (find_chunks_loop P target chunk_list results)"
  using assms
  by (induction chunk_list arbitrary: results) (auto split: sum.splits)

text \<open>
  Claim C7. When the provider decodes every chunk of the list, \<^verbatim>\<open>find_blocks_in_chunks\<close>
  returns one dict per chunk, in the order of the list, with the single key
  \<^verbatim>\<open>(chunk.x, chunk.z)\<close> and, as its value, the number of blocks of the chunk whose id is the
  target; a chunk without such a block has the value 0.
\<close>

theorem find_blocks_in_chunks_entries:
  assumes "\<forall>c \<in> set chunk_list. \<not> isl (get_chunk_matrice P c)"
  shows "find_blocks_in_chunks P target chunk_list =
           Inr (map (\<lambda>c. [((chunk_x c, chunk_z c),
                  int (length (filter (\<lambda>b. block_id b = target) (blocks_of P c))))]) chunk_list)
       \<and> (\<exists>results. find_blocks_in_chunks P target chunk_list = Inr results
             \<and> length results = length chunk_list)"
  using find_chunks_loop_ok [OF assms, of target "[]"]
  by (simp add: find_blocks_in_chunks_def)

section \<open>The two phases of the world analyzer\<close>

lemma store_all_append: "store_all (es @ fs) r = store_all fs (store_all es r)"
  by (induction es r rule: store_all.induct) auto

lemma scan_chunks_ok:
  "list_all (\<lambda>c. \<not> isl (get_chunk_matrice P c)) cs \<Longrightarrow>
     scan_chunks P cs r = Inr (store_all (map (entry_of P) cs) r)"
proof (induction cs arbitrary: r)
  case Nil
  show ?case by simp
next
  case (Cons c cs)
  from Cons.prems obtain bs where bs: "get_chunk_matrice P c = Inr bs"
    by (cases "get_chunk_matrice P c") auto
  have rest: "list_all (\<lambda>c. \<not> isl (get_chunk_matrice P c)) cs" using Cons.prems by simp
  show ?case
    by (simp add: bs Cons.IH [OF rest] entry_of_def chunk_counts_def blocks_of_def Let_def)
qed

lemma scan_chunks_fail:
  "\<not> list_all (\<lambda>c. \<not> isl (get_chunk_matrice P c)) cs \<Longrightarrow> isl (scan_chunks P cs r)"
  by (induction cs arbitrary: r) (auto simp: Let_def split: sum.splits)

lemma scan_chunks_first_error:
  assumes "list_all (\<lambda>c. \<not> isl (get_chunk_matrice P c)) cs1"
    and "get_chunk_matrice P c = Inl e"
  shows "scan_chunks P (cs1 @ c # cs2) r = Inl e"
  using assms
  by (induction cs1 arbitrary: r) (auto simp: Let_def split: sum.splits)

lemma all_chunks_Cons: "all_chunks P (file # files) = chunks_of P file @ all_chunks P files"
  by (simp add: all_chunks_def)

lemma all_chunks_append: "all_chunks P (fs1 @ fs2) = all_chunks P fs1 @ all_chunks P fs2"
  by (simp add: all_chunks_def)

lemma provider_ok_Cons:
  "provider_ok P (file # files) \<longleftrightarrow>
     \<not> isl (get_list_of_chunks_by_mca P file) \<and>
     list_all (\<lambda>c. \<not> isl (get_chunk_matrice P c)) (chunks_of P file) \<and>
     provider_ok P files"
  by (auto simp: provider_ok_def all_chunks_Cons)

lemma scan_files_ok:
  "provider_ok P files \<Longrightarrow>
     scan_files P files r = Inr (store_all (map (entry_of P) (all_chunks P files)) r)"
proof (induction files arbitrary: r)
  case Nil
  show ?case by (simp add: all_chunks_def)
next
  case (Cons fl files)
  from Cons.prems have f: "\<not> isl (get_list_of_chunks_by_mca P fl)"
    and cs: "list_all (\<lambda>c. \<not> isl (get_chunk_matrice P c)) (chunks_of P fl)"
    and rest: "provider_ok P files"
    by (simp_all add: provider_ok_Cons)
  from f obtain chunk_list where cl: "get_list_of_chunks_by_mca P fl = Inr chunk_list"
    by (cases "get_list_of_chunks_by_mca P fl") auto
  then have co: "chunks_of P fl = chunk_list" by (simp add: chunks_of_def)
  show ?case
    using scan_chunks_ok [OF cs, of r]
    by (simp add: cl co Cons.IH [OF rest] all_chunks_Cons store_all_append)
qed

lemma scan_files_fail: "\<not> provider_ok P files \<Longrightarrow> isl (scan_files P files r)"
proof (induction files arbitrary: r)
  case Nil
  then show ?case by (simp add: provider_ok_def all_chunks_def)
next
  case (Cons fl files)
  show ?case
  proof (cases "get_list_of_chunks_by_mca P fl")
    case (Inl e)
    then show ?thesis by simp
  next
    case (Inr chunk_list)
    then have co: "chunks_of P fl = chunk_list" by (simp add: chunks_of_def)
    show ?thesis
    proof (cases "list_all (\<lambda>c. \<not> isl (get_chunk_matrice P c)) chunk_list")
      case False
      then have "isl (scan_chunks P chunk_list r)" by (rule scan_chunks_fail)
      then show ?thesis using Inr by (auto split: sum.splits)
    next
      case True
      then have "\<not> provider_ok P files" using Cons.prems Inr co by (simp add: provider_ok_Cons)
      then have "isl (scan_files P files r')" for r' by (rule Cons.IH)
      then show ?thesis using Inr by (auto split: sum.splits)
    qed
  qed
qed


lemma report_loop_eq:
  "report_loop r tot out =
     (\<lparr>chest = chest tot + key_total ''chest'' r,
       obsidian = obsidian tot + key_total ''obsidian'' r,
       rf = rf tot + key_total ''rf'' r\<rparr>,
      out @ map report_line r)"
  by (induction r tot out rule: report_loop.induct) (simp_all add: key_total_def report_line_def)

lemma analyze_ok:
  assumes "get_mca_files P ''cyan'' '''' = Inr files" and "provider_ok P files"
  shows "analyze_world_chunks P =
           (Inr (),
            map report_line (store_all (map (entry_of P) (all_chunks P files)) []) @
            [''Total chests: '' @
               str_int (key_total ''chest'' (store_all (map (entry_of P) (all_chunks P files)) [])),
             ''Total obsidian: '' @
               str_int (key_total ''obsidian'' (store_all (map (entry_of P) (all_chunks P files)) [])),
             ''Total RF blocks: '' @
               str_int (key_total ''rf'' (store_all (map (entry_of P) (all_chunks P files)) []))])"
  using assms scan_files_ok [OF assms(2), of "[]"]
  by (simp add: analyze_world_chunks_def report_loop_eq)

lemma analyze_fail:
  assumes "get_mca_files P ''cyan'' '''' = Inr files" and "\<not> provider_ok P files"
  shows "\<exists>e. analyze_world_chunks P = (Inl e, [])"
proof -
  from scan_files_fail [OF assms(2), of "[]"] obtain e where "scan_files P files [] = Inl e"
    by (cases "scan_files P files []") auto
  then show ?thesis using assms(1) by (simp add: analyze_world_chunks_def)
qed

section \<open>Runs on the example inputs\<close>

lemma str_int_examples:
  "str_int 80 = ''80''" "str_int (- 48) = ''-48''" "str_int 16 = ''16''"
  "str_int 1 = ''1''" "str_int 2 = ''2''" "str_int 4 = ''4''"
  by (simp_all add: str_int_def digits.simps digit_char_def)

lemma block_name_examples:
  "block_name_of 3886 = Some ''rf''" "block_name_of 54 = Some ''chest''"
  "block_name_of 146 = Some ''chest''" "block_name_of 49 = Some ''obsidian''"
  "block_name_of 9999 = Some ''9999''"
  by (simp_all add: block_name_of_def names_get_def BLOCK_ID_NAMES_def str_int_9999)

theorem find_blocks_in_chunks_entries_witness:
  "find_blocks_in_chunks demo_provider 54
     [\<lparr>chunk_x = 5, chunk_z = - 3, chunk_data = 0\<rparr>,
      \<lparr>chunk_x = 0, chunk_z = 0, chunk_data = 1\<rparr>,
      \<lparr>chunk_x = 1, chunk_z = 1, chunk_data = 2\<rparr>]
   = Inr [[((5, - 3), 0)], [((0, 0), 0)], [((1, 1), 1)]]"
  using find_blocks_in_chunks_entries [of
     "[\<lparr>chunk_x = 5, chunk_z = - 3, chunk_data = 0\<rparr>,
      \<lparr>chunk_x = 0, chunk_z = 0, chunk_data = 1\<rparr>,
      \<lparr>chunk_x = 1, chunk_z = 1, chunk_data = 2\<rparr>]" demo_provider 54]
  by (simp add: demo_provider_def blocks_of_def blk_def)

section \<open>Labels and the location report\<close>

lemma split_at_char:
  assumes "s \<notin> set a" and "s \<notin> set a'" and "a @ s # r = a' @ s # r'"
  shows "a = a' \<and> r = r'"
  using assms
proof (induction a arbitrary: a')
  case Nil
  then show ?case by (cases a') auto
next
  case (Cons x a)
  then show ?case by (cases a') auto
qed

lemma comma_not_in_str_int: "CHR '','' \<notin> set (str_int i)"
proof
  assume "CHR '','' \<in> set (str_int i)"
  then have "CHR '','' \<in> set ''-0123456789''" using str_int_chars [of i] by (rule rev_subsetD)
  then show False by simp
qed

lemma chunk_key_inj:
  "chunk_key c = chunk_key c' \<longleftrightarrow> chunk_x c = chunk_x c' \<and> chunk_z c = chunk_z c'"
proof
  assume "chunk_key c = chunk_key c'"
  then have "str_int (chunk_x c * 16) @ CHR '','' # '' z:'' @ str_int (chunk_z c * 16)
           = str_int (chunk_x c' * 16) @ CHR '','' # '' z:'' @ str_int (chunk_z c' * 16)"
    by (simp add: chunk_key_def)
  then have "str_int (chunk_x c * 16) = str_int (chunk_x c' * 16)
           \<and> '' z:'' @ str_int (chunk_z c * 16) = '' z:'' @ str_int (chunk_z c' * 16)"
    by (rule split_at_char [OF comma_not_in_str_int comma_not_in_str_int])
  then have "chunk_x c * 16 = chunk_x c' * 16" and "chunk_z c * 16 = chunk_z c' * 16"
    by (auto dest: str_int_inj)
  then show "chunk_x c = chunk_x c' \<and> chunk_z c = chunk_z c'" by simp
next
  assume "chunk_x c = chunk_x c' \<and> chunk_z c = chunk_z c'"
  then show "chunk_key c = chunk_key c'" by (simp add: chunk_key_def)
qed

lemma distinct_store_all: "distinct (map fst r) \<Longrightarrow> distinct (map fst (store_all es r))"
  by (induction es r rule: store_all.induct) (auto simp: distinct_dict_set)

lemma find_app:
  "find Q (xs @ ys) = (case find Q xs of None \<Rightarrow> find Q ys | Some x \<Rightarrow> Some x)"
  by (induction xs) auto

lemma map_of_store_all:
  "map_of (store_all es r) l =
     (case find (\<lambda>e. fst e = l \<and> snd e \<noteq> []) (rev es) of
        Some e \<Rightarrow> Some (snd e)
      | None \<Rightarrow> map_of r l)"
proof (induction es r rule: store_all.induct)
  case (1 r)
  show ?case by simp
next
  case (2 l' bc es r)
  show ?case
    by (auto simp: 2 find_app map_of_dict_set split: option.splits)
qed

lemma keys_store_all_snoc:
  "map fst (store_all (es @ [e]) r) =
     (if snd e \<noteq> [] \<and> fst e \<notin> set (map fst (store_all es r))
      then map fst (store_all es r) @ [fst e] else map fst (store_all es r))"
proof (cases e)
  case (Pair l bc)
  have "store_all (es @ [e]) r = (if bc \<noteq> [] then dict_set l bc (store_all es r) else store_all es r)"
    by (simp add: Pair store_all_append)
  then show ?thesis by (simp add: Pair keys_dict_set)
qed

lemma keys_store_all:
  "map fst (store_all es []) = rev (remdups (rev (map fst (filter (\<lambda>e. snd e \<noteq> []) es))))"
proof (induction es rule: rev_induct)
  case Nil
  show ?case by simp
next
  case (snoc e es)
  let ?S = "store_all es []"
  let ?F = "map fst (filter (\<lambda>e. snd e \<noteq> []) es)"
  have keys: "set (map fst ?S) = set ?F"
    by (simp only: snoc.IH set_rev set_remdups)
  show ?case
  proof (cases "snd e \<noteq> []")
    case False
    then show ?thesis by (simp only: keys_store_all_snoc) (simp add: snoc.IH)
  next
    case True
    then have f: "map fst (filter (\<lambda>e. snd e \<noteq> []) (es @ [e])) = ?F @ [fst e]" by simp
    show ?thesis
    proof (cases "fst e \<in> set ?F")
      case True
      then have "map fst (store_all (es @ [e]) []) = map fst ?S"
        using keys by (simp only: keys_store_all_snoc) simp
      moreover have "rev (remdups (rev (?F @ [fst e]))) = rev (remdups (rev ?F))"
        using True by simp
      ultimately show ?thesis by (simp only: f snoc.IH)
    next
      case False
      then have "map fst (store_all (es @ [e]) []) = map fst ?S @ [fst e]"
        using keys \<open>snd e \<noteq> []\<close> by (simp only: keys_store_all_snoc) simp
      moreover have "rev (remdups (rev (?F @ [fst e]))) = rev (remdups (rev ?F)) @ [fst e]"
        using False by simp
      ultimately show ?thesis by (simp only: f snoc.IH)
    qed
  qed
qed

section \<open>Totals of the report\<close>

lemma filter_dict_set_in:
  "k \<in> S \<Longrightarrow> filter (\<lambda>e. fst e \<notin> S) (dict_set k v r) = filter (\<lambda>e. fst e \<notin> S) r"
  by (induction k v r rule: dict_set.induct) auto

lemma filter_insert_absent:
  "k \<notin> fst ` set r \<Longrightarrow> filter (\<lambda>e. fst e \<notin> insert k S) r = filter (\<lambda>e. fst e \<notin> S) r"
  by (rule filter_cong) auto

lemma sum_filter_dict_set_out:
  fixes f :: "'v \<Rightarrow> int"
  assumes "distinct (map fst r)" and "k \<notin> S"
  shows "(\<Sum>e\<leftarrow>filter (\<lambda>e. fst e \<notin> S) (dict_set k v r). f (snd e)) =
         (\<Sum>e\<leftarrow>filter (\<lambda>e. fst e \<notin> insert k S) r. f (snd e)) + f v"
  using assms
proof (induction k v r rule: dict_set.induct)
  case (1 k v)
  then show ?case by simp
next
  case (2 k v k' v' d)
  show ?case
  proof (cases "k' = k")
    case True
    then have "k \<notin> fst ` set d" using "2.prems"(1) by auto
    then have "filter (\<lambda>e. fst e \<notin> insert k S) d = filter (\<lambda>e. fst e \<notin> S) d"
      by (rule filter_insert_absent)
    then show ?thesis using True "2.prems"(2) by simp
  next
    case False
    have "distinct (map fst d)" using "2.prems"(1) by simp
    then show ?thesis using False "2.IH" "2.prems"(2) by simp
  qed
qed

lemma live_Cons:
  "live (e # es) = (if snd e \<noteq> [] then insert (fst e) (live es) else live es)"
  by (simp add: live_def)

lemma sum_store_all:
  fixes f :: "counts \<Rightarrow> int"
  assumes "f [] = 0"
  shows "distinct (map fst r) \<Longrightarrow>
         (\<Sum>e\<leftarrow>store_all es r. f (snd e)) =
         (\<Sum>e\<leftarrow>filter (\<lambda>e. fst e \<notin> live es) r. f (snd e)) + (\<Sum>e\<leftarrow>kept es. f (snd e))"
proof (induction es arbitrary: r)
  case Nil
  show ?case by (simp add: live_def)
next
  case (Cons e es)
  obtain l bc where e: "e = (l, bc)" by (cases e)
  show ?case
  proof (cases "bc = []")
    case True
    then show ?thesis using Cons.IH [OF Cons.prems] assms by (simp add: e live_Cons)
  next
    case False
    have d: "distinct (map fst (dict_set l bc r))" using Cons.prems by (rule distinct_dict_set)
    have st: "(\<Sum>e\<leftarrow>store_all (e # es) r. f (snd e)) =
          (\<Sum>e\<leftarrow>filter (\<lambda>e. fst e \<notin> live es) (dict_set l bc r). f (snd e)) + (\<Sum>e\<leftarrow>kept es. f (snd e))"
      using Cons.IH [OF d] False by (simp add: e)
    show ?thesis
    proof (cases "l \<in> live es")
      case True
      then have "insert l (live es) = live es" by auto
      then show ?thesis using st True False
        by (simp add: e live_Cons filter_dict_set_in)
    next
      case notin: False
      show ?thesis using st notin False
        by (simp add: e live_Cons sum_filter_dict_set_out [OF Cons.prems notin])
    qed
  qed
qed

lemma key_total_store_all:
  "key_total k (store_all es []) = (\<Sum>e\<leftarrow>kept es. dict_get_default (snd e) (Some k) 0)"
  using sum_store_all [of "\<lambda>d. dict_get_default d (Some k) 0" "[]" es]
  by (simp add: key_total_def dict_get_default_def)

lemma live_entries:
  "fst (entry_of P c) \<in> live (map (entry_of P) cs) \<longleftrightarrow>
     list_ex (\<lambda>c'. chunk_key c' = chunk_key c \<and> chunk_counts P c' \<noteq> []) cs"
proof
  assume "fst (entry_of P c) \<in> live (map (entry_of P) cs)"
  then obtain c' where "c' \<in> set cs" "snd (entry_of P c') \<noteq> []"
    "fst (entry_of P c') = fst (entry_of P c)"
    by (auto simp: live_def)
  then show "list_ex (\<lambda>c'. chunk_key c' = chunk_key c \<and> chunk_counts P c' \<noteq> []) cs"
    by (auto simp: list_ex_iff entry_of_def)
next
  assume "list_ex (\<lambda>c'. chunk_key c' = chunk_key c \<and> chunk_counts P c' \<noteq> []) cs"
  then obtain c' where c': "c' \<in> set cs" "chunk_key c' = chunk_key c" "chunk_counts P c' \<noteq> []"
    by (auto simp: list_ex_iff)
  have "entry_of P c' \<in> set (filter (\<lambda>e. snd e \<noteq> []) (map (entry_of P) cs))"
    using c'(1,3) by (simp add: entry_of_def)
  then have "fst (entry_of P c') \<in> live (map (entry_of P) cs)"
    unfolding live_def by (rule imageI)
  then show "fst (entry_of P c) \<in> live (map (entry_of P) cs)"
    using c'(2) by (simp add: entry_of_def)
qed

lemma kept_chunks_entries: "kept (map (entry_of P) cs) = map (entry_of P) (kept_chunks P cs)"
  by (induction cs) (simp_all add: live_entries)

lemma kept_chunks_distinct:
  "distinct (map (\<lambda>c. (chunk_x c, chunk_z c)) cs) \<Longrightarrow> kept_chunks P cs = cs"
proof (induction cs)
  case Nil
  show ?case by simp
next
  case (Cons c cs)
  have "\<not> list_ex (\<lambda>c'. chunk_key c' = chunk_key c \<and> chunk_counts P c' \<noteq> []) cs"
  proof
    assume "list_ex (\<lambda>c'. chunk_key c' = chunk_key c \<and> chunk_counts P c' \<noteq> []) cs"
    then obtain c' where c': "c' \<in> set cs" "chunk_key c' = chunk_key c"
      by (auto simp: list_ex_iff)
    have eq: "(chunk_x c', chunk_z c') = (chunk_x c, chunk_z c)"
      using c'(2) chunk_key_inj [of c' c] by simp
    have "(\<lambda>c. (chunk_x c, chunk_z c)) c' \<in> (\<lambda>c. (chunk_x c, chunk_z c)) ` set cs"
      using c'(1) by (rule imageI)
    then have "(chunk_x c, chunk_z c) \<in> (\<lambda>c. (chunk_x c, chunk_z c)) ` set cs"
      using eq by simp
    then show False using Cons.prems by simp
  qed
  then show ?case using Cons by simp
qed

lemma get_default_counts:
  "dict_get_default (count_blocks_in_chunk blocks) k 0 = occurrences k blocks"
  by (simp add: dict_get_default_def map_of_count_blocks)

lemma name_is_iff:
  assumes "j \<noteq> 0" and "i \<noteq> 0" and "i \<noteq> 54" and "i \<noteq> 146"
  shows "block_name_of j = block_name_of i \<longleftrightarrow> j = i"
  using block_name_of_inj [of j i] assms by auto

lemma chest_iff: "(j \<noteq> 0 \<and> block_name_of j = Some ''chest'') \<longleftrightarrow> j \<in> set [54, 146]"
proof
  assume a: "j \<noteq> 0 \<and> block_name_of j = Some ''chest''"
  then have "block_name_of j = block_name_of 54" by (simp add: block_name_examples)
  then show "j \<in> set [54, 146]" using block_name_of_inj [of j 54] a by auto
next
  assume "j \<in> set [54, 146]"
  then show "j \<noteq> 0 \<and> block_name_of j = Some ''chest''" by (auto simp: block_name_examples)
qed

lemma obsidian_iff: "(j \<noteq> 0 \<and> block_name_of j = Some ''obsidian'') \<longleftrightarrow> j \<in> set [49]"
  using name_is_iff [of j 49] by (auto simp: block_name_examples)

lemma rf_iff: "(j \<noteq> 0 \<and> block_name_of j = Some ''rf'') \<longleftrightarrow> j \<in> set [3886]"
  using name_is_iff [of j 3886] by (auto simp: block_name_examples)

lemma occurrences_ids:
  "occurrences (Some ''chest'') blocks = count_ids [54, 146] blocks"
  "occurrences (Some ''obsidian'') blocks = count_ids [49] blocks"
  "occurrences (Some ''rf'') blocks = count_ids [3886] blocks"
  unfolding occurrences_def count_ids_def chest_iff obsidian_iff rf_iff by simp_all

lemma chunk_total:
  "dict_get_default (snd (entry_of P c)) (Some ''chest'') 0 = count_ids [54, 146] (blocks_of P c)"
  "dict_get_default (snd (entry_of P c)) (Some ''obsidian'') 0 = count_ids [49] (blocks_of P c)"
  "dict_get_default (snd (entry_of P c)) (Some ''rf'') 0 = count_ids [3886] (blocks_of P c)"
  by (simp_all add: entry_of_def chunk_counts_def get_default_counts occurrences_ids)

lemma key_total_chunks:
  "key_total ''chest'' (store_all (map (entry_of P) cs) []) =
     (\<Sum>c\<leftarrow>kept_chunks P cs. count_ids [54, 146] (blocks_of P c))"
  "key_total ''obsidian'' (store_all (map (entry_of P) cs) []) =
     (\<Sum>c\<leftarrow>kept_chunks P cs. count_ids [49] (blocks_of P c))"
  "key_total ''rf'' (store_all (map (entry_of P) cs) []) =
     (\<Sum>c\<leftarrow>kept_chunks P cs. count_ids [3886] (blocks_of P c))"
  by (simp_all add: key_total_store_all kept_chunks_entries chunk_total comp_def)

section \<open>Properties of the world analyzer\<close>

lemma find_entries:
  "find (\<lambda>e. fst e = l \<and> snd e \<noteq> []) (map (entry_of P) cs) =
     map_option (entry_of P) (find (\<lambda>c. chunk_key c = l \<and> chunk_counts P c \<noteq> []) cs)"
  by (induction cs) (auto simp: entry_of_def)

lemma map_of_report:
  "map_of (store_all (map (entry_of P) cs) []) l =
     (case find (\<lambda>c. chunk_key c = l \<and> chunk_counts P c \<noteq> []) (rev cs) of
        Some c \<Rightarrow> Some (chunk_counts P c)
      | None \<Rightarrow> None)"
proof -
  have "rev (map (entry_of P) cs) = map (entry_of P) (rev cs)" by (simp add: rev_map)
  then have f: "find (\<lambda>e. fst e = l \<and> snd e \<noteq> []) (rev (map (entry_of P) cs)) =
     map_option (entry_of P) (find (\<lambda>c. chunk_key c = l \<and> chunk_counts P c \<noteq> []) (rev cs))"
    by (simp only: find_entries)
  show ?thesis
    by (cases "find (\<lambda>c. chunk_key c = l \<and> chunk_counts P c \<noteq> []) (rev cs)")
       (simp_all add: map_of_store_all f entry_of_def)
qed

lemma keys_report:
  "map fst (store_all (map (entry_of P) cs) []) =
     rev (remdups (rev (map chunk_key (filter (\<lambda>c. chunk_counts P c \<noteq> []) cs))))"
proof -
  have "map fst (filter (\<lambda>e. snd e \<noteq> []) (map (entry_of P) cs)) =
        map chunk_key (filter (\<lambda>c. chunk_counts P c \<noteq> []) cs)"
    by (induction cs) (simp_all add: entry_of_def)
  then show ?thesis by (simp only: keys_store_all)
qed

lemma values_store_all:
  "\<forall>e \<in> set r. snd e \<noteq> [] \<Longrightarrow> \<forall>e \<in> set (store_all es r). snd e \<noteq> []"
proof (induction es r rule: store_all.induct)
  case (1 r)
  then show ?case by simp
next
  case (2 l bc es r)
  have "\<forall>e \<in> set (dict_set l bc r). snd e \<noteq> []" if "bc \<noteq> []" and "\<forall>e \<in> set r. snd e \<noteq> []" for r
    using that by (induction l bc r rule: dict_set.induct) auto
  then show ?case using 2 by (cases "bc = []") simp_all
qed

lemma chunk_key_example: "chunk_key \<lparr>chunk_x = 5, chunk_z = - 3, chunk_data = d\<rparr> = ''x:80, z:-48''"
  by (simp add: chunk_key_def str_int_examples)

text \<open>
  Claim C5. When every call of the provider returns, the location report that the first
  phase of \<^verbatim>\<open>analyze_world_chunks\<close> builds holds, under a label, the count dict of the last
  chunk processed that has this label and a count dict that is not empty, and nothing
  under a label without such a chunk; so a chunk's dict is stored if and only if it is
  not empty, no stored dict is empty, and a later chunk with the same label overwrites
  the earlier entry. The label is made of the chunk's coordinates times 16: the chunk at
  x = 5, z = -3 has the label \<^verbatim>\<open>x:80, z:-48\<close>.
\<close>

theorem report_holds_last_nonempty:
  assumes "provider_ok P files"
  shows "\<exists>report. scan_files P files [] = Inr report
       \<and> (\<forall>l. map_of report l =
             (case find (\<lambda>c. chunk_key c = l \<and> count_blocks_in_chunk (blocks_of P c) \<noteq> [])
                     (rev (all_chunks P files)) of
                Some c \<Rightarrow> Some (count_blocks_in_chunk (blocks_of P c))
              | None \<Rightarrow> None))
       \<and> set (map fst report) =
           set (map chunk_key
                 (filter (\<lambda>c. count_blocks_in_chunk (blocks_of P c) \<noteq> []) (all_chunks P files)))
       \<and> (\<forall>e \<in> set report. snd e \<noteq> [])
       \<and> distinct (map fst report)
       \<and> chunk_key \<lparr>chunk_x = 5, chunk_z = - 3, chunk_data = d\<rparr> = ''x:80, z:-48''"
proof -
  let ?R = "store_all (map (entry_of P) (all_chunks P files)) []"
  have a: "scan_files P files [] = Inr ?R" using assms by (rule scan_files_ok)
  have b: "map_of ?R l =
             (case find (\<lambda>c. chunk_key c = l \<and> count_blocks_in_chunk (blocks_of P c) \<noteq> [])
                     (rev (all_chunks P files)) of
                Some c \<Rightarrow> Some (count_blocks_in_chunk (blocks_of P c))
              | None \<Rightarrow> None)" for l
    using map_of_report [of P "all_chunks P files" l] unfolding chunk_counts_def .
  have "set (map fst ?R) =
          set (map chunk_key (filter (\<lambda>c. chunk_counts P c \<noteq> []) (all_chunks P files)))"
    by (simp only: keys_report set_rev set_remdups)
  then have c: "set (map fst ?R) =
           set (map chunk_key
                 (filter (\<lambda>c. count_blocks_in_chunk (blocks_of P c) \<noteq> []) (all_chunks P files)))"
    by (simp only: chunk_counts_def)
  have d: "\<forall>e \<in> set ?R. snd e \<noteq> []" by (rule values_store_all) simp
  have e: "distinct (map fst ?R)" by (rule distinct_store_all) simp
  show ?thesis
    using a b c d e chunk_key_example [of d] by simp
qed

lemma twin_ok: "provider_ok twin_provider [0, 1]"
  by (simp add: provider_ok_def all_chunks_def chunks_of_def twin_provider_def)

lemma twin_chunks:
  "all_chunks twin_provider [0, 1] =
     [\<lparr>chunk_x = 0, chunk_z = 0, chunk_data = 0\<rparr>, \<lparr>chunk_x = 0, chunk_z = 0, chunk_data = 1\<rparr>]"
  by (simp add: all_chunks_def chunks_of_def twin_provider_def)

lemma twin_counts:
  "count_blocks_in_chunk (blocks_of twin_provider \<lparr>chunk_x = 0, chunk_z = 0, chunk_data = 0\<rparr>) =
     [(Some ''chest'', 1)]"
  "count_blocks_in_chunk (blocks_of twin_provider \<lparr>chunk_x = 0, chunk_z = 0, chunk_data = 1\<rparr>) =
     [(Some ''chest'', 1), (Some ''obsidian'', 1)]"
  by (simp_all add: blocks_of_def twin_provider_def count_blocks_in_chunk_def blk_def
      block_name_examples)

theorem report_holds_last_nonempty_witness:
  "\<exists>report. scan_files twin_provider [0, 1] [] = Inr report
     \<and> map_of report ''x:0, z:0'' = Some [(Some ''chest'', 1), (Some ''obsidian'', 1)]
     \<and> set (map fst report) = {''x:0, z:0''}"
proof -
  from report_holds_last_nonempty [OF twin_ok, of 0]
  obtain report where r: "scan_files twin_provider [0, 1] [] = Inr report"
    and m: "\<forall>l. map_of report l =
             (case find (\<lambda>c. chunk_key c = l \<and> count_blocks_in_chunk (blocks_of twin_provider c) \<noteq> [])
                     (rev (all_chunks twin_provider [0, 1])) of
                Some c \<Rightarrow> Some (count_blocks_in_chunk (blocks_of twin_provider c))
              | None \<Rightarrow> None)"
    and k: "set (map fst report) =
           set (map chunk_key
                 (filter (\<lambda>c. count_blocks_in_chunk (blocks_of twin_provider c) \<noteq> [])
                    (all_chunks twin_provider [0, 1])))"
    by (elim exE conjE) (rule that; assumption)
  have "map_of report ''x:0, z:0'' = Some [(Some ''chest'', 1), (Some ''obsidian'', 1)]"
    by (simp add: m twin_chunks twin_counts chunk_key_def str_int_0)
  moreover have "set (map fst report) = {''x:0, z:0''}"
    unfolding k by (simp add: twin_chunks twin_counts chunk_key_def str_int_0)
  ultimately show ?thesis using r by simp
qed

lemma scan_files_append:
  "scan_files P (fs1 @ fs2) r =
     (case scan_files P fs1 r of Inl e \<Rightarrow> Inl e | Inr r' \<Rightarrow> scan_files P fs2 r')"
  by (induction fs1 arbitrary: r) (auto split: sum.splits)

lemma scan_files_list_error:
  assumes "provider_ok P fs1" and "get_list_of_chunks_by_mca P f = Inl e"
  shows "scan_files P (fs1 @ f # fs2) r = Inl e"
  using scan_files_ok [OF assms(1), of r] assms(2)
  by (simp add: scan_files_append)

lemma scan_files_chunk_error:
  assumes "provider_ok P fs1"
    and "get_list_of_chunks_by_mca P f = Inr (cs1 @ c # cs2)"
    and "list_all (\<lambda>c. \<not> isl (get_chunk_matrice P c)) cs1"
    and "get_chunk_matrice P c = Inl e"
  shows "scan_files P (fs1 @ f # fs2) r = Inl e"
  using scan_files_ok [OF assms(1), of r] assms(2)
    scan_chunks_first_error [OF assms(3) assms(4)]
  by (simp add: scan_files_append)

text \<open>
  Claim C9. \<^verbatim>\<open>analyze_world_chunks\<close> has no \<^verbatim>\<open>try\<close>: an exception of the provider leaves
  the function as it is raised, and since every line is printed after the last call of
  the provider, nothing has been printed then. The run ends with the error \<open>e\<close> and no
  output when the file discovery raises \<open>e\<close>; when, after files whose calls all return,
  the chunk enumeration of a file raises \<open>e\<close>; and when, after chunks that all decode,
  the decoding of a chunk raises \<open>e\<close>. A run that ends with an error has printed nothing,
  and a run ends normally exactly when every call of the provider returns.
\<close>

theorem provider_failure_aborts_run:
  "(get_mca_files P ''cyan'' '''' = Inl e \<longrightarrow> analyze_world_chunks P = (Inl e, []))
   \<and> (get_mca_files P ''cyan'' '''' = Inr (fs1 @ f # fs2) \<and> provider_ok P fs1 \<and>
        get_list_of_chunks_by_mca P f = Inl e \<longrightarrow>
        analyze_world_chunks P = (Inl e, []))
   \<and> (get_mca_files P ''cyan'' '''' = Inr (fs1 @ f # fs2) \<and> provider_ok P fs1 \<and>
        get_list_of_chunks_by_mca P f = Inr (cs1 @ c # cs2) \<and>
        list_all (\<lambda>c. \<not> isl (get_chunk_matrice P c)) cs1 \<and>
        get_chunk_matrice P c = Inl e \<longrightarrow>
        analyze_world_chunks P = (Inl e, []))
   \<and> (isl (fst (analyze_world_chunks P)) \<longrightarrow> snd (analyze_world_chunks P) = [])
   \<and> (get_mca_files P ''cyan'' '''' = Inr files \<longrightarrow>
        (fst (analyze_world_chunks P) = Inr ()) = provider_ok P files)"
proof -
  have a: "analyze_world_chunks P = (Inl e, [])" if "get_mca_files P ''cyan'' '''' = Inl e"
    using that by (simp add: analyze_world_chunks_def)
  have b: "analyze_world_chunks P = (Inl e, [])"
    if "get_mca_files P ''cyan'' '''' = Inr (fs1 @ f # fs2)" and "provider_ok P fs1"
      and "get_list_of_chunks_by_mca P f = Inl e"
    using that(1) scan_files_list_error [OF that(2) that(3), of fs2 "[]"]
    by (simp add: analyze_world_chunks_def)
  have c: "analyze_world_chunks P = (Inl e, [])"
    if "get_mca_files P ''cyan'' '''' = Inr (fs1 @ f # fs2)" and "provider_ok P fs1"
      and "get_list_of_chunks_by_mca P f = Inr (cs1 @ c # cs2)"
      and "list_all (\<lambda>c. \<not> isl (get_chunk_matrice P c)) cs1"
      and "get_chunk_matrice P c = Inl e"
    using that(1) scan_files_chunk_error [OF that(2) that(3) that(4) that(5), of fs2 "[]"]
    by (simp add: analyze_world_chunks_def)
  have d: "snd (analyze_world_chunks P) = []" if "isl (fst (analyze_world_chunks P))"
    using that by (auto simp: analyze_world_chunks_def split: sum.splits prod.splits)
  have e: "(fst (analyze_world_chunks P) = Inr ()) = provider_ok P files"
    if g: "get_mca_files P ''cyan'' '''' = Inr files"
  proof (cases "provider_ok P files")
    case True
    then show ?thesis using analyze_ok [OF g True] by simp
  next
    case False
    then show ?thesis using analyze_fail [OF g False] by auto
  qed
  show ?thesis using a b c d e by blast
qed

lemma corrupt_chunk_list:
  "get_list_of_chunks_by_mca corrupt_provider 0 =
     Inr ([\<lparr>chunk_x = 5, chunk_z = - 3, chunk_data = 0\<rparr>] @
          \<lparr>chunk_x = 0, chunk_z = 0, chunk_data = 1\<rparr> # [])"
  by (simp add: corrupt_provider_def)

theorem provider_failure_aborts_run_witness:
  "analyze_world_chunks corrupt_provider = (Inl (ProviderError ''corrupt chunk''), [])"
proof -
  have files: "get_mca_files corrupt_provider ''cyan'' '''' = Inr ([] @ 0 # [1])"
    by (simp add: corrupt_provider_def)
  have before: "provider_ok corrupt_provider []"
    by (simp add: provider_ok_def all_chunks_def)
  have decoded: "list_all (\<lambda>c. \<not> isl (get_chunk_matrice corrupt_provider c))
      [\<lparr>chunk_x = 5, chunk_z = - 3, chunk_data = 0\<rparr>]"
    by (simp add: corrupt_provider_def)
  have raised: "get_chunk_matrice corrupt_provider \<lparr>chunk_x = 0, chunk_z = 0, chunk_data = 1\<rparr> =
      Inl (ProviderError ''corrupt chunk'')"
    by (simp add: corrupt_provider_def)
  show ?thesis
    using provider_failure_aborts_run
      [of corrupt_provider "ProviderError ''corrupt chunk''" "[]" 0 "[1]"
          "[\<lparr>chunk_x = 5, chunk_z = - 3, chunk_data = 0\<rparr>]"
          "\<lparr>chunk_x = 0, chunk_z = 0, chunk_data = 1\<rparr>" "[]" "[0, 1]",
       THEN conjunct2, THEN conjunct2, THEN conjunct1]
      files before corrupt_chunk_list decoded raised
    by blast
qed

text \<open>
  Claim C6. When every call of the provider returns, the run prints one line per entry
  of the location report, the label and then the count dict, in the order in which the
  labels were first inserted (the order of the first chunk with a count dict that is not
  empty for each label), and then the three lines of the totals, in the order chests,
  obsidian, RF blocks; each total is the sum, over the entries, of the count under the
  key, or 0 where the key is absent.
\<close>

theorem report_printed_in_order:
  assumes "get_mca_files P ''cyan'' '''' = Inr files" and "provider_ok P files"
  shows "\<exists>report. scan_files P files [] = Inr report
       \<and> map fst report =
           rev (remdups (rev (map chunk_key
             (filter (\<lambda>c. count_blocks_in_chunk (blocks_of P c) \<noteq> []) (all_chunks P files)))))
       \<and> analyze_world_chunks P =
           (Inr (),
            map (\<lambda>e. fst e @ '': '' @ repr_counts (snd e)) report @
            [''Total chests: '' @
               str_int (sum_list (map (\<lambda>e. dict_get_default (snd e) (Some ''chest'') 0) report)),
             ''Total obsidian: '' @
               str_int (sum_list (map (\<lambda>e. dict_get_default (snd e) (Some ''obsidian'') 0) report)),
             ''Total RF blocks: '' @
               str_int (sum_list (map (\<lambda>e. dict_get_default (snd e) (Some ''rf'') 0) report))])"
proof -
  let ?R = "store_all (map (entry_of P) (all_chunks P files)) []"
  have a: "scan_files P files [] = Inr ?R" using assms(2) by (rule scan_files_ok)
  have b: "map fst ?R =
           rev (remdups (rev (map chunk_key
             (filter (\<lambda>c. count_blocks_in_chunk (blocks_of P c) \<noteq> []) (all_chunks P files)))))"
    using keys_report [of P "all_chunks P files"] unfolding chunk_counts_def .
  have c: "analyze_world_chunks P =
           (Inr (),
            map (\<lambda>e. fst e @ '': '' @ repr_counts (snd e)) ?R @
            [''Total chests: '' @
               str_int (sum_list (map (\<lambda>e. dict_get_default (snd e) (Some ''chest'') 0) ?R)),
             ''Total obsidian: '' @
               str_int (sum_list (map (\<lambda>e. dict_get_default (snd e) (Some ''obsidian'') 0) ?R)),
             ''Total RF blocks: '' @
               str_int (sum_list (map (\<lambda>e. dict_get_default (snd e) (Some ''rf'') 0) ?R))])"
    using analyze_ok [OF assms] unfolding key_total_def report_line_def .
  show ?thesis using a b c by blast
qed

lemma demo_files: "get_mca_files demo_provider ''cyan'' '''' = Inr [0, 1]"
  by (simp add: demo_provider_def)

lemma demo_ok: "provider_ok demo_provider [0, 1]"
  by (simp add: provider_ok_def all_chunks_def chunks_of_def demo_provider_def)

lemma demo_chunks:
  "all_chunks demo_provider [0, 1] =
     [\<lparr>chunk_x = 5, chunk_z = - 3, chunk_data = 0\<rparr>,
      \<lparr>chunk_x = 0, chunk_z = 0, chunk_data = 1\<rparr>,
      \<lparr>chunk_x = 1, chunk_z = 1, chunk_data = 2\<rparr>]"
  by (simp add: all_chunks_def chunks_of_def demo_provider_def)

lemma demo_blocks:
  "blocks_of demo_provider \<lparr>chunk_x = 5, chunk_z = - 3, chunk_data = 0\<rparr> =
     [blk 3886, blk 0, blk 3886, blk 3886, blk 3886]"
  "blocks_of demo_provider \<lparr>chunk_x = 0, chunk_z = 0, chunk_data = 1\<rparr> = [blk 0, blk 0]"
  "blocks_of demo_provider \<lparr>chunk_x = 1, chunk_z = 1, chunk_data = 2\<rparr> =
     [blk 54, blk 146, blk 49, blk 9999]"
  by (simp_all add: blocks_of_def demo_provider_def)

lemma demo_report:
  "scan_files demo_provider [0, 1] [] =
     Inr [(''x:80, z:-48'', [(Some ''rf'', 4)]),
          (''x:16, z:16'', [(Some ''chest'', 2), (Some ''obsidian'', 1), (Some ''9999'', 1)])]"
  by (simp add: demo_provider_def count_blocks_in_chunk_def blk_def block_name_examples
      chunk_key_def str_int_examples str_int_0)

theorem report_printed_in_order_witness:
  "analyze_world_chunks demo_provider =
     (Inr (),
      [''x:80, z:-48: {'' @ [CHR 0x27] @ ''rf'' @ [CHR 0x27] @ '': 4}'',
       ''x:16, z:16: {'' @ [CHR 0x27] @ ''chest'' @ [CHR 0x27] @ '': 2, '' @
          [CHR 0x27] @ ''obsidian'' @ [CHR 0x27] @ '': 1, '' @
          [CHR 0x27] @ ''9999'' @ [CHR 0x27] @ '': 1}'',
       ''Total chests: 2'', ''Total obsidian: 1'', ''Total RF blocks: 4''])"
proof -
  from report_printed_in_order [OF demo_files demo_ok]
  obtain report where r: "scan_files demo_provider [0, 1] [] = Inr report"
    and a: "analyze_world_chunks demo_provider =
           (Inr (),
            map (\<lambda>e. fst e @ '': '' @ repr_counts (snd e)) report @
            [''Total chests: '' @
               str_int (sum_list (map (\<lambda>e. dict_get_default (snd e) (Some ''chest'') 0) report)),
             ''Total obsidian: '' @
               str_int (sum_list (map (\<lambda>e. dict_get_default (snd e) (Some ''obsidian'') 0) report)),
             ''Total RF blocks: '' @
               str_int (sum_list (map (\<lambda>e. dict_get_default (snd e) (Some ''rf'') 0) report))])"
    by (elim exE conjE) (rule that; assumption)
  have "report =
     [(''x:80, z:-48'', [(Some ''rf'', 4)]),
      (''x:16, z:16'', [(Some ''chest'', 2), (Some ''obsidian'', 1), (Some ''9999'', 1)])]"
    using r by (simp only: demo_report sum.inject)
  then show ?thesis
    unfolding a
    by (simp add: repr_counts_def repr_item_def repr_key_def dict_get_default_def
        str_int_examples)
qed

lemma count_ids_nonneg: "0 \<le> (\<Sum>c\<leftarrow>cs. count_ids ids (blocks_of P c))"
  by (rule sum_list_nonneg) (auto simp: count_ids_def)

text \<open>
  Claim C2, as amended. Every count of a per-chunk dict is positive and is the number of
  blocks of the chunk, air excluded, that bear the key's name. When every call of the
  provider returns, the three totals printed are not negative and are the numbers of
  blocks with the ids 54 or 146 (chests), 49 (obsidian) and 3886 (RF) in the chunks that
  are still in the location report at the end, the chunks whose label no later chunk
  with a count dict that is not empty has again; when the processed chunks have pairwise
  distinct coordinates, these are the numbers over all processed chunks. Air blocks
  count nowhere.
\<close>

theorem totals_count_kept_chunks:
  assumes "get_mca_files P ''cyan'' '''' = Inr files" and "provider_ok P files"
  shows "(\<forall>c \<in> set (all_chunks P files).
            \<forall>(k, n) \<in> set (count_blocks_in_chunk (blocks_of P c)).
              0 < n \<and>
              n = int (length (filter (\<lambda>b. block_id b \<noteq> 0 \<and> block_name_of (block_id b) = k)
                                 (blocks_of P c))))
       \<and> (\<exists>lines. analyze_world_chunks P =
             (Inr (),
              lines @
              [''Total chests: '' @
                 str_int (\<Sum>c\<leftarrow>kept_chunks P (all_chunks P files). count_ids [54, 146] (blocks_of P c)),
               ''Total obsidian: '' @
                 str_int (\<Sum>c\<leftarrow>kept_chunks P (all_chunks P files). count_ids [49] (blocks_of P c)),
               ''Total RF blocks: '' @
                 str_int (\<Sum>c\<leftarrow>kept_chunks P (all_chunks P files). count_ids [3886] (blocks_of P c))]))
       \<and> 0 \<le> (\<Sum>c\<leftarrow>kept_chunks P (all_chunks P files). count_ids [54, 146] (blocks_of P c))
       \<and> 0 \<le> (\<Sum>c\<leftarrow>kept_chunks P (all_chunks P files). count_ids [49] (blocks_of P c))
       \<and> 0 \<le> (\<Sum>c\<leftarrow>kept_chunks P (all_chunks P files). count_ids [3886] (blocks_of P c))
       \<and> (distinct (map (\<lambda>c. (chunk_x c, chunk_z c)) (all_chunks P files)) \<longrightarrow>
            (\<exists>lines. analyze_world_chunks P =
               (Inr (),
                lines @
                [''Total chests: '' @
                   str_int (\<Sum>c\<leftarrow>all_chunks P files. count_ids [54, 146] (blocks_of P c)),
                 ''Total obsidian: '' @
                   str_int (\<Sum>c\<leftarrow>all_chunks P files. count_ids [49] (blocks_of P c)),
                 ''Total RF blocks: '' @
                   str_int (\<Sum>c\<leftarrow>all_chunks P files. count_ids [3886] (blocks_of P c))])))"
proof -
  let ?cs = "all_chunks P files"
  have a: "0 < n \<and>
           n = int (length (filter (\<lambda>b. block_id b \<noteq> 0 \<and> block_name_of (block_id b) = k)
                              (blocks_of P c)))"
    if "(k, n) \<in> set (count_blocks_in_chunk (blocks_of P c))" for c k n
    using that occurrences_nonneg [of k "blocks_of P c"]
    by (simp add: entry_count_blocks) (simp add: occurrences_def)
  have b: "analyze_world_chunks P =
             (Inr (),
              map report_line (store_all (map (entry_of P) ?cs) []) @
              [''Total chests: '' @
                 str_int (\<Sum>c\<leftarrow>kept_chunks P ?cs. count_ids [54, 146] (blocks_of P c)),
               ''Total obsidian: '' @
                 str_int (\<Sum>c\<leftarrow>kept_chunks P ?cs. count_ids [49] (blocks_of P c)),
               ''Total RF blocks: '' @
                 str_int (\<Sum>c\<leftarrow>kept_chunks P ?cs. count_ids [3886] (blocks_of P c))])"
    using analyze_ok [OF assms] by (simp only: key_total_chunks)
  have c: "kept_chunks P ?cs = ?cs" if "distinct (map (\<lambda>c. (chunk_x c, chunk_z c)) ?cs)"
    using that by (rule kept_chunks_distinct)
  have d: "\<exists>lines. analyze_world_chunks P =
               (Inr (),
                lines @
                [''Total chests: '' @
                   str_int (\<Sum>c\<leftarrow>?cs. count_ids [54, 146] (blocks_of P c)),
                 ''Total obsidian: '' @
                   str_int (\<Sum>c\<leftarrow>?cs. count_ids [49] (blocks_of P c)),
                 ''Total RF blocks: '' @
                   str_int (\<Sum>c\<leftarrow>?cs. count_ids [3886] (blocks_of P c))])"
    if "distinct (map (\<lambda>c. (chunk_x c, chunk_z c)) ?cs)"
    by (rule exI [of _ "map report_line (store_all (map (entry_of P) ?cs) [])"])
       (use b in \<open>simp only: c [OF that]\<close>)
  have e: "\<exists>lines. analyze_world_chunks P =
             (Inr (),
              lines @
              [''Total chests: '' @
                 str_int (\<Sum>c\<leftarrow>kept_chunks P ?cs. count_ids [54, 146] (blocks_of P c)),
               ''Total obsidian: '' @
                 str_int (\<Sum>c\<leftarrow>kept_chunks P ?cs. count_ids [49] (blocks_of P c)),
               ''Total RF blocks: '' @
                 str_int (\<Sum>c\<leftarrow>kept_chunks P ?cs. count_ids [3886] (blocks_of P c))])"
    by (rule exI [of _ "map report_line (store_all (map (entry_of P) ?cs) [])"]) (rule b)
  have f: "\<forall>c \<in> set ?cs.
            \<forall>(k, n) \<in> set (count_blocks_in_chunk (blocks_of P c)).
              0 < n \<and>
              n = int (length (filter (\<lambda>b. block_id b \<noteq> 0 \<and> block_name_of (block_id b) = k)
                                 (blocks_of P c)))"
    using a by blast
  show ?thesis
    using f e d count_ids_nonneg [of "[54, 146]" P "kept_chunks P ?cs"]
      count_ids_nonneg [of "[49]" P "kept_chunks P ?cs"]
      count_ids_nonneg [of "[3886]" P "kept_chunks P ?cs"]
    by blast
qed

theorem totals_count_kept_chunks_witness:
  "\<exists>lines. analyze_world_chunks demo_provider =
     (Inr (), lines @ [''Total chests: 2'', ''Total obsidian: 1'', ''Total RF blocks: 4''])"
proof -
  have dist: "distinct (map (\<lambda>c. (chunk_x c, chunk_z c)) (all_chunks demo_provider [0, 1]))"
    by (simp add: demo_chunks)
  have sums:
    "(\<Sum>c\<leftarrow>all_chunks demo_provider [0, 1]. count_ids [54, 146] (blocks_of demo_provider c)) = 2"
    "(\<Sum>c\<leftarrow>all_chunks demo_provider [0, 1]. count_ids [49] (blocks_of demo_provider c)) = 1"
    "(\<Sum>c\<leftarrow>all_chunks demo_provider [0, 1]. count_ids [3886] (blocks_of demo_provider c)) = 4"
    by (simp_all add: demo_chunks demo_blocks count_ids_def blk_def)
  note t = totals_count_kept_chunks [OF demo_files demo_ok]
  from t have "distinct (map (\<lambda>c. (chunk_x c, chunk_z c)) (all_chunks demo_provider [0, 1])) \<longrightarrow>
            (\<exists>lines. analyze_world_chunks demo_provider =
               (Inr (),
                lines @
                [''Total chests: '' @
                   str_int (\<Sum>c\<leftarrow>all_chunks demo_provider [0, 1]. count_ids [54, 146] (blocks_of demo_provider c)),
                 ''Total obsidian: '' @
                   str_int (\<Sum>c\<leftarrow>all_chunks demo_provider [0, 1]. count_ids [49] (blocks_of demo_provider c)),
                 ''Total RF blocks: '' @
                   str_int (\<Sum>c\<leftarrow>all_chunks demo_provider [0, 1]. count_ids [3886] (blocks_of demo_provider c))]))"
    by (elim conjE)
  then show ?thesis using dist unfolding sums by (simp add: str_int_examples)
qed

theorem totals_all_chunks_counterexample:
  "analyze_world_chunks twin_provider =
     (Inr (),
      [''x:0, z:0: {'' @ [CHR 0x27] @ ''chest'' @ [CHR 0x27] @ '': 1, '' @
          [CHR 0x27] @ ''obsidian'' @ [CHR 0x27] @ '': 1}'',
       ''Total chests: 1'', ''Total obsidian: 1'', ''Total RF blocks: 0''])
   \<and> sum_list (map (count_ids [54, 146] \<circ> blocks_of twin_provider)
        (all_chunks twin_provider [0, 1])) = 2"
  by (simp add: analyze_world_chunks_def twin_provider_def count_blocks_in_chunk_def blk_def
      block_name_examples chunk_key_def str_int_examples str_int_0 repr_counts_def repr_item_def
      repr_key_def dict_get_default_def all_chunks_def chunks_of_def blocks_of_def count_ids_def)

section \<open>The keys of a count dict are plain strings\<close>

lemma table_names_plain:
  "list_all (\<lambda>(i, v). case v of None \<Rightarrow> True
       | Some n \<Rightarrow> set n \<subseteq> set ''abcdefghijklmnopqrstuvwxyz_-0123456789'') BLOCK_ID_NAMES"
  by (simp add: BLOCK_ID_NAMES_def)

lemma names_get_plain:
  "names_get i = Some n \<Longrightarrow> set n \<subseteq> set ''abcdefghijklmnopqrstuvwxyz_-0123456789''"
  using table_names_plain names_get_in_table [of i n]
  unfolding list_all_iff by fastforce

lemma str_int_plain: "set (str_int i) \<subseteq> set ''abcdefghijklmnopqrstuvwxyz_-0123456789''"
proof -
  have "set ''-0123456789'' \<subseteq> set ''abcdefghijklmnopqrstuvwxyz_-0123456789''" by simp
  with str_int_chars [of i] show ?thesis by (rule subset_trans)
qed

lemma count_keys_plain:
  assumes "k \<in> fst ` set (count_blocks_in_chunk blocks)"
  shows "\<exists>s. k = Some s \<and> set s \<subseteq> set ''abcdefghijklmnopqrstuvwxyz_-0123456789''"
proof -
  from assms obtain i where i: "i \<noteq> 0" "k = block_name_of i"
    unfolding keys_count_blocks by auto
  from block_name_of_cases [OF i(1)] show ?thesis
  proof
    assume "names_get i = None \<and> block_name_of i = Some (str_int i)"
    then show ?thesis using i(2) str_int_plain [of i] by simp
  next
    assume "\<exists>n. names_get i = Some n \<and> block_name_of i = Some n"
    then obtain n where "names_get i = Some n" "block_name_of i = Some n" by blast
    then show ?thesis using i(2) names_get_plain [of i n] by simp
  qed
qed

end
